theory Spec2Isabelle
  imports Complex_Main "HOL-Library.Word" "HOL-Library.Sublist"
begin

section \<open>The HP1000 driver: data model\<close>

text \<open>
  The driver (\<^verbatim>\<open>src/HP1000.py\<close>) is Python 2. Its integers are unbounded (\<open>int\<close>); the
  4-byte floating point fields of a NOWRECORD reply are modelled as \<open>real\<close>: every
  comparison of a decoded value with a threshold is exact on a float, and the products
  and differences the driver computes are taken without rounding. A naive
  \<^verbatim>\<open>datetime\<close> is the number of microseconds since 1601-01-01 00:00:00, the epoch of
  the station's tick counter; \<^verbatim>\<open>datetime.time()\<close> is the microsecond of the day.
\<close>

datatype error =
    RetriesExceeded
  | IndexError
  | ValueError
  | UnboundLocalError
  | AttributeError
  | StructError
  | LibraryError string

datatype val = VNone | VInt int | VFloat real

type_synonym packet = "string \<rightharpoonup> val"

type_synonym datetime = int

definition time_of_day :: "datetime \<Rightarrow> int" where
  "time_of_day dt = dt mod 86400000000"

definition METRICWX :: int where
  "METRICWX = 17"

text \<open>
  \<^verbatim>\<open>interp_data\<close> of \<^verbatim>\<open>genLoopPackets\<close>: the fields of
  \<^verbatim>\<open>struct.unpack("8s8s16s8shbb14fbbh", rxData)\<close> from index 4 on.
\<close>

record nowrecord =
  nr_windDir :: int
  nr_inHumidity :: int
  nr_outHumidity :: int
  nr_inTemp :: real
  nr_pressure :: real
  nr_barometer :: real
  nr_outTemp :: real
  nr_dewPoint :: real
  nr_windChill :: real
  nr_windSpeed :: real
  nr_windGust :: real
  nr_rainRate :: real
  nr_dailyRain :: real
  nr_weeklyRain :: real
  nr_monthlyRain :: real
  nr_yearlyRain :: real
  nr_radiation :: real
  nr_UVI :: int

text \<open>The attributes of \<^verbatim>\<open>HP1000Driver\<close> that the packet builder reads and writes.\<close>

record driver =
  temperature_unit :: int
  pressure_unit :: int
  wind_unit :: int
  rain_unit :: int
  solar_unit :: int
  last_rain_value :: "real option"
  last_rain_time :: "datetime option"

section \<open>Unit conversion\<close>

text \<open>
  \<^verbatim>\<open>convertStd\<close> belongs to weewx, not to the driver: it is a parameter, a function
  that returns a value tuple or raises.
\<close>

type_synonym value_tuple = "real \<times> string \<times> string"

type_synonym converter = "value_tuple \<Rightarrow> int \<Rightarrow> error + value_tuple"

definition convert_units :: "('s \<Rightarrow> 't \<Rightarrow> error + 's) \<Rightarrow> 's \<Rightarrow> 't \<Rightarrow> error + 's" where
  "convert_units convertStd source target =
     (case convertStd source target of
        Inr result \<Rightarrow> Inr result
      | Inl e \<Rightarrow> Inr source)"

definition bind_res :: "error + 'a \<Rightarrow> ('a \<Rightarrow> error + 'b) \<Rightarrow> error + 'b" where
  "bind_res m f = (case m of Inl e \<Rightarrow> Inl e | Inr x \<Rightarrow> f x)"

text \<open>\<^verbatim>\<open>_packet[key] = self.convert_units((v, unit, group), weewx.METRICWX)[0]\<close>\<close>

definition set_converted ::
  "converter \<Rightarrow> string \<Rightarrow> real \<Rightarrow> string \<Rightarrow> string \<Rightarrow> packet \<Rightarrow> error + packet" where
  "set_converted convertStd key v sourceUnit grp p =
     bind_res (convert_units convertStd (v, sourceUnit, grp) METRICWX)
       (\<lambda>r. Inr (p(key \<mapsto> VFloat (fst r))))"

section \<open>The live path: one LOOP packet\<close>

text \<open>
  One turn of the \<^verbatim>\<open>while True\<close> of \<^verbatim>\<open>genLoopPackets\<close>, from the decoded reply to
  the \<^verbatim>\<open>yield\<close>, outside the internal test mode. The connection handling before it and
  the test data generator are not part of the model.
\<close>

definition loop_base :: "int \<Rightarrow> nowrecord \<Rightarrow> packet" where
  "loop_base now r =
     [''dateTime'' \<mapsto> VInt now,
      ''usUnits'' \<mapsto> VInt METRICWX,
      ''windDir'' \<mapsto> (if nr_windDir r = 32767 then VNone else VInt (nr_windDir r)),
      ''inHumidity'' \<mapsto> VInt (nr_inHumidity r),
      ''outHumidity'' \<mapsto> (if nr_outHumidity r = 127 then VNone else VInt (nr_outHumidity r))]"

definition loop_temperature :: "converter \<Rightarrow> driver \<Rightarrow> nowrecord \<Rightarrow> packet \<Rightarrow> error + packet" where
  "loop_temperature convertStd d r p0 =
     (let sourceUnit = (if temperature_unit d = 0 then ''degree_C'' else ''degree_F'') in
      bind_res (if nr_inTemp r = 32767 then Inr (p0(''inTemp'' \<mapsto> VNone))
                else set_converted convertStd ''inTemp'' (nr_inTemp r) sourceUnit ''group_temperature'' p0)
      (\<lambda>p1.
      bind_res (if nr_outTemp r \<ge> 3276 then Inr (p1(''outTemp'' \<mapsto> VNone))
                else set_converted convertStd ''outTemp'' (nr_outTemp r) sourceUnit ''group_temperature'' p1)
      (\<lambda>p2.
      bind_res (if nr_dewPoint r \<ge> 3276 then Inr (p2(''dewPoint'' \<mapsto> VNone))
                else set_converted convertStd ''dewPoint'' (nr_dewPoint r) sourceUnit ''group_temperature'' p2)
      (\<lambda>p3.
      (if nr_windChill r \<ge> 3276 then Inr (p3(''windChill'' \<mapsto> VNone))
       else set_converted convertStd ''windChill'' (nr_windChill r) sourceUnit ''group_temperature'' p3)))))"

definition loop_pressure :: "converter \<Rightarrow> driver \<Rightarrow> nowrecord \<Rightarrow> packet \<Rightarrow> error + packet" where
  "loop_pressure convertStd d r p0 =
     (let sourceUnit = (if pressure_unit d = 0 then ''hPa''
                        else if pressure_unit d = 1 then ''inHg'' else ''mmHg'') in
      bind_res (if nr_pressure r \<ge> 3276 then Inr (p0(''pressure'' \<mapsto> VNone))
                else set_converted convertStd ''pressure'' (nr_pressure r) sourceUnit ''group_pressure'' p0)
      (\<lambda>p1.
      (if nr_barometer r \<ge> 3276 then Inr (p1(''pressure'' \<mapsto> VNone))
       else set_converted convertStd ''barometer'' (nr_barometer r) sourceUnit ''group_pressure'' p1)))"

text \<open>
  The wind branch rewrites \<^verbatim>\<open>interp_data[13]\<close> and \<^verbatim>\<open>interp_data[14]\<close> for the Beaufort
  scale and for ft/s before the sentinel test. \<^verbatim>\<open>math.pow\<close> of a negative number to the
  power 1.5 raises ValueError.
\<close>

definition wind_values :: "driver \<Rightarrow> nowrecord \<Rightarrow> error + (string \<times> real \<times> real)" where
  "wind_values d r =
     (if wind_unit d = 0 then Inr (''meter_per_second'', nr_windSpeed r, nr_windGust r)
      else if wind_unit d = 1 then Inr (''km_per_hour'', nr_windSpeed r, nr_windGust r)
      else if wind_unit d = 2 then Inr (''knot'', nr_windSpeed r, nr_windGust r)
      else if wind_unit d = 3 then Inr (''mile_per_hour'', nr_windSpeed r, nr_windGust r)
      else if wind_unit d = 4 then
        (if nr_windSpeed r < 0 \<or> nr_windGust r < 0 then Inl ValueError
         else Inr (''meter_per_second'',
                   0.836 * (nr_windSpeed r) powr 1.5,
                   0.836 * (nr_windGust r) powr 1.5))
      else Inr (''meter_per_second'', nr_windSpeed r * 0.3048, nr_windGust r * 0.3048))"

definition loop_wind :: "converter \<Rightarrow> driver \<Rightarrow> nowrecord \<Rightarrow> packet \<Rightarrow> error + packet" where
  "loop_wind convertStd d r p0 =
     bind_res (wind_values d r)
       (\<lambda>(sourceUnit, speed, gust).
          bind_res (if speed \<ge> 3276 then Inr (p0(''windSpeed'' \<mapsto> VNone))
                    else set_converted convertStd ''windSpeed'' speed sourceUnit ''group_speed'' p0)
          (\<lambda>p1.
          (if gust \<ge> 3276 then Inr (p1(''windGust'' \<mapsto> VNone))
           else set_converted convertStd ''windGust'' gust sourceUnit ''group_speed'' p1)))"

definition loop_radiation :: "driver \<Rightarrow> nowrecord \<Rightarrow> packet \<Rightarrow> packet" where
  "loop_radiation d r p =
     (let p1 =
        (if nr_radiation r > 2147480 then p(''radiation'' \<mapsto> VNone)
         else if solar_unit d = 0 then p(''radiation'' \<mapsto> VFloat (nr_radiation r * 4.02))
         else if solar_unit d = 1 then p(''radiation'' \<mapsto> VFloat (nr_radiation r * 0.04358))
         else p(''radiation'' \<mapsto> VFloat (nr_radiation r)))
      in if nr_UVI r < 0 then p1(''UV'' \<mapsto> VNone) else p1(''UV'' \<mapsto> VInt (nr_UVI r)))"

text \<open>
  The value stored under \<^verbatim>\<open>'rain'\<close>, from the baseline held by the driver. The two
  attributes are always written together; a baseline value without its time would raise
  AttributeError at \<^verbatim>\<open>self.last_rain_time.time()\<close>.
\<close>

definition loop_rain :: "driver \<Rightarrow> datetime \<Rightarrow> nowrecord \<Rightarrow> error + val" where
  "loop_rain d current_time r =
     (case last_rain_value d of
        None \<Rightarrow> Inr VNone
      | Some lrv \<Rightarrow>
          (if nr_dailyRain r \<ge> 214748367 then Inr VNone
           else (case last_rain_time d of
                   None \<Rightarrow> Inl AttributeError
                 | Some lrt \<Rightarrow>
                     (if time_of_day current_time > time_of_day lrt \<and> nr_dailyRain r \<ge> lrv then
                        (if rain_unit d = 0 then Inr (VFloat (nr_dailyRain r - lrv))
                         else Inr (VFloat ((nr_dailyRain r - lrv) * 25.4)))
                      else Inr (VFloat 0.0)))))"

text \<open>
  The whole turn: the packet yielded and the driver with its baseline updated.
  \<open>now\<close> is \<^verbatim>\<open>int(time.time())\<close>, \<open>current_time\<close> is \<^verbatim>\<open>datetime.datetime.now()\<close>.
\<close>

definition loop_packet ::
  "converter \<Rightarrow> driver \<Rightarrow> int \<Rightarrow> datetime \<Rightarrow> nowrecord \<Rightarrow> error + (packet \<times> driver)" where
  "loop_packet convertStd d now current_time r =
     bind_res (loop_temperature convertStd d r (loop_base now r)) (\<lambda>p1.
     bind_res (loop_pressure convertStd d r p1) (\<lambda>p2.
     bind_res (loop_wind convertStd d r p2) (\<lambda>p3.
     bind_res (loop_rain d current_time r) (\<lambda>rain.
       Inr ((loop_radiation d r p3)(''rain'' \<mapsto> rain),
            d\<lparr>last_rain_value := Some (nr_dailyRain r),
              last_rain_time := Some current_time\<rparr>)))))"

text \<open>
  A stand-in for weewx's \<^verbatim>\<open>convertStd\<close>, used in the examples only: it knows the units
  that are metric already and Fahrenheit, and raises on every other unit.
\<close>

definition sample_convertStd :: converter where
  "sample_convertStd s t =
     (case s of (v, u, g) \<Rightarrow>
        if u = ''degree_C'' then Inr (v, ''degree_C'', g)
        else if u = ''degree_F'' then Inr ((v - 32) * 5 / 9, ''degree_C'', g)
        else if u = ''hPa'' then Inr (v, ''mbar'', g)
        else if u = ''meter_per_second'' then Inr (v, ''meter_per_second'', g)
        else Inl (LibraryError ''unknown unit''))"

text \<open>A reading of a mild day, every sensor present, and a driver set to metric units.\<close>

definition mild_reading :: nowrecord where
  "mild_reading =
     \<lparr>nr_windDir = 95, nr_inHumidity = 49, nr_outHumidity = 71, nr_inTemp = 24.5,
      nr_pressure = 1014.3, nr_barometer = 998.4, nr_outTemp = 15.9, nr_dewPoint = 7.4,
      nr_windChill = 15.8, nr_windSpeed = 1.5, nr_windGust = 3.8, nr_rainRate = 0,
      nr_dailyRain = 10, nr_weeklyRain = 10, nr_monthlyRain = 10, nr_yearlyRain = 10,
      nr_radiation = 532.7, nr_UVI = 3\<rparr>"

definition metric_driver :: driver where
  "metric_driver =
     \<lparr>temperature_unit = 0, pressure_unit = 0, wind_unit = 0, rain_unit = 0, solar_unit = 2,
      last_rain_value = None, last_rain_time = None\<rparr>"

section \<open>The archive path: data\<close>

text \<open>
  One HISTORY_DATA record, \<^verbatim>\<open>struct.unpack('Q12h7I', ...)\<close>: an unsigned 64-bit tick
  counter, twelve signed 16-bit fields and seven unsigned 32-bit fields.
\<close>

record history_record =
  hr_dateTime :: "64 word"
  hr_inTemp :: "16 word"
  hr_inHumidity :: "16 word"
  hr_pressure :: "16 word"
  hr_barometer :: "16 word"
  hr_outTemp :: "16 word"
  hr_outHumidity :: "16 word"
  hr_dewPoint :: "16 word"
  hr_windChill :: "16 word"
  hr_heatIndex :: "16 word"
  hr_windSpeed :: "16 word"
  hr_windGust :: "16 word"
  hr_windDir :: "16 word"
  hr_rainRate :: "32 word"
  hr_dailyRain :: "32 word"
  hr_weeklyRain :: "32 word"
  hr_monthlyRain :: "32 word"
  hr_yearlyRain :: "32 word"
  hr_uv :: "32 word"
  hr_radiation :: "32 word"

text \<open>
  The HISTORY_FILE reply, \<^verbatim>\<open>interp_data[7:15]\<close> (the years, newest first, 0 for an unused
  slot) and \<^verbatim>\<open>interp_data[15:23]\<close> (the record counts). \<^verbatim>\<open>struct.unpack\<close> yields eight
  of each or raises.
\<close>

record history_file =
  hf_years :: "int list"
  hf_counts :: "int list"

text \<open>
  The weather station as the driver sees it through its socket: what it answers to
  HISTORY_FILE and to HISTORY_DATA (year, record count, starting record), \<open>None\<close> when
  the send or the receive fails.
\<close>

record station =
  history_file :: "history_file option"
  history_data :: "int \<Rightarrow> int \<Rightarrow> int \<Rightarrow> history_record list option"

text \<open>
  The functions of Python's \<^verbatim>\<open>time\<close> and \<^verbatim>\<open>datetime\<close> that depend on the time zone
  and the calendar: \<^verbatim>\<open>datetime.fromtimestamp\<close>, \<^verbatim>\<open>time.mktime(dt.timetuple())\<close> and
  \<^verbatim>\<open>dt.year\<close>.
\<close>

record calendar =
  fromtimestamp :: "int \<Rightarrow> datetime"
  mktime :: "datetime \<Rightarrow> int"
  year_of :: "datetime \<Rightarrow> int"

datatype request = HISTORY_FILE | HISTORY_DATA int int int

datatype 'a local = Unbound | Bound 'a

text \<open>
  The local variables of \<^verbatim>\<open>genStartupRecords\<close> that live across its loops, with the
  requests sent to the station and the packets yielded so far.
\<close>

record locals =
  a_last_rain_value :: "real option local"
  a_last_record_date :: "datetime option"
  a_record_datetime :: "datetime local"
  a_requests :: "request list"
  a_yielded :: "packet list"

type_synonym 'a outcome = "(error \<times> locals) + 'a"

section \<open>The archive path: choosing the year\<close>

definition enumerate7 :: "int list \<Rightarrow> (int \<times> int) list" where
  "enumerate7 ys = zip [7..6 + int (length ys)] ys"

text \<open>\<^verbatim>\<open>[x for x, y in enumerate(interp_data[7:15],7) if y != 0][-1]\<close>\<close>

definition first_year_index :: "int list \<Rightarrow> error + int" where
  "first_year_index years =
     (case map fst (filter (\<lambda>(x, y). y \<noteq> 0) (enumerate7 years)) of
        [] \<Rightarrow> Inl IndexError
      | xs \<Rightarrow> Inr (last xs))"

text \<open>
  The \<^verbatim>\<open>for\<close> loop over \<^verbatim>\<open>reversed(list(enumerate(interp_data[7:15],7)))\<close>, left at the
  first slot whose year is not below the year of the start date.
\<close>

definition resume_year_index :: "int list \<Rightarrow> int \<Rightarrow> int option" where
  "resume_year_index years start_year =
     map_option fst (find (\<lambda>(index, ws_year). ws_year \<ge> start_year) (rev (enumerate7 years)))"

definition year_at :: "history_file \<Rightarrow> int \<Rightarrow> int" where
  "year_at hf year_index = hf_years hf ! nat (year_index - 7)"

definition count_at :: "history_file \<Rightarrow> int \<Rightarrow> int" where
  "count_at hf year_index = hf_counts hf ! nat (year_index - 7)"

section \<open>The archive path: the binary search\<close>

text \<open>
  \<^verbatim>\<open>getHistoryData\<close>: the request is sent and the reply read; any failure of the socket
  is raised as RetriesExceeded. The reply is taken whole (the loop that collects a reply
  sent in chunks is not modelled), as is the packing of the request, whose arguments fit
  their fields here.
\<close>

definition getHistoryData ::
  "station \<Rightarrow> int \<Rightarrow> int \<Rightarrow> int \<Rightarrow> locals \<Rightarrow> (history_record list \<times> locals) outcome" where
  "getHistoryData st year record_count starting_record L =
     (let L' = L\<lparr>a_requests := a_requests L @ [HISTORY_DATA year record_count starting_record]\<rparr>
      in case history_data st year record_count starting_record of
           None \<Rightarrow> Inl (RetriesExceeded, L')
         | Some rx_data \<Rightarrow> Inr (rx_data, L'))"

definition record_time :: "history_record \<Rightarrow> datetime" where
  "record_time r = uint (hr_dateTime r) div 10"

text \<open>\<^verbatim>\<open>struct.unpack('i', rec_data[76:80])[0] / 10.0\<close>: the daily rain read as signed.\<close>

definition probe_rain :: "history_record \<Rightarrow> real" where
  "probe_rain r = real_of_int (sint (hr_dailyRain r)) / 10"

partial_function (option) find_start ::
  "station \<Rightarrow> int \<Rightarrow> datetime \<Rightarrow> int \<Rightarrow> int \<Rightarrow> locals \<Rightarrow> (int \<times> locals) outcome option" where
  "find_start st year start_date lower upper L =
     (if lower = upper then Some (Inr (upper, L))
      else
        (let sample = (upper + lower) div 2 in
         case getHistoryData st year 1 sample L of
           Inl err \<Rightarrow> Some (Inl err)
         | Inr (rec_data, L1) \<Rightarrow>
             (case rec_data of
                [] \<Rightarrow> Some (Inl (StructError, L1))
              | r # rest \<Rightarrow>
                  (let record_datetime = record_time r;
                       L2 = L1\<lparr>a_record_datetime := Bound record_datetime,
                               a_last_rain_value := Bound (Some (probe_rain r))\<rparr>
                   in if start_date = record_datetime then Some (Inr (sample + 1, L2))
                      else if start_date > record_datetime then
                        (if lower = sample then Some (Inr (sample + 1, L2))
                         else find_start st year start_date (sample + 1) upper L2)
                      else
                        (if upper = sample then Some (Inr (sample, L2))
                         else find_start st year start_date lower sample L2)))))"

declare find_start.simps [code]

section \<open>The archive path: the time of a paged record\<close>

text \<open>
  The paging loop computes \<^verbatim>\<open>rec_data[0] / 10.0\<close> in double precision and hands the
  quotient to \<^verbatim>\<open>datetime.timedelta(microseconds=...)\<close>. Python 2 rounds the tick
  counter to the nearest double (ties to even), rounds the quotient by 10 the same way,
  and \<^verbatim>\<open>timedelta\<close> keeps the whole part of the quotient plus its fraction rounded
  half up. The doubles met here are non-negative and far from the limits of the format,
  so they are given by integer arithmetic: a double is a 53-bit integer times a power of
  two.
\<close>

function bit_length :: "int \<Rightarrow> nat" where
  "bit_length n = (if n \<le> 0 then 0 else Suc (bit_length (n div 2)))"
  by pat_completeness auto
termination
  by (relation "measure nat") auto

declare bit_length.simps [simp del]

text \<open>The quotient of two positive integers, rounded to the nearest integer, ties to even.\<close>

definition round_half_even :: "int \<Rightarrow> int \<Rightarrow> int" where
  "round_half_even num den =
     (let q = num div den; r = num mod den
      in if 2 * r > den \<or> (2 * r = den \<and> odd q) then q + 1 else q)"

text \<open>\<^verbatim>\<open>float(n)\<close> for a non-negative integer: the nearest double, itself an integer.\<close>

definition double_of_int :: "int \<Rightarrow> int" where
  "double_of_int n =
     (if bit_length n \<le> 53 then n
      else round_half_even n (2 ^ (bit_length n - 53)) * 2 ^ (bit_length n - 53))"

text \<open>
  The microseconds of \<^verbatim>\<open>timedelta(microseconds=d / 10.0)\<close> for a double \<open>d\<close> with a
  non-negative integer value. The quotient lies in \<open>[2^lg, 2^(lg+1))\<close>; it is rounded to
  a multiple of \<open>2^(lg - 52)\<close>, and when that is a fraction the result is rounded half
  up to a whole number.
\<close>

definition tenth_microseconds :: "int \<Rightarrow> int" where
  "tenth_microseconds d =
     (if d \<le> 0 then 0
      else
        (let k = int (bit_length d);
             lg = (if 8 * d \<ge> 5 * 2 ^ bit_length d then k - 4 else k - 5);
             e = lg - 52
         in if e \<ge> 0 then round_half_even d (10 * 2 ^ nat e) * 2 ^ nat e
            else (round_half_even (d * 2 ^ nat (- e)) 10 + 2 ^ (nat (- e) - 1))
                   div 2 ^ nat (- e)))"

text \<open>
  \<^verbatim>\<open>record_datetime = epoch + datetime.timedelta(microseconds=rec_data[0] / 10.0)\<close>
\<close>

definition paged_time :: "history_record \<Rightarrow> datetime" where
  "paged_time r = tenth_microseconds (double_of_int (uint (hr_dateTime r)))"

section \<open>The archive path: one packet per record\<close>

definition short_field :: "16 word \<Rightarrow> val" where
  "short_field w = (if sint w = 32767 then VNone else VInt (sint w))"

definition tenths_field :: "16 word \<Rightarrow> val" where
  "tenths_field w = (if sint w = 32767 then VNone else VFloat (real_of_int (sint w) / 10))"

text \<open>
  The delta rain of a record, from the date of the previous record and the rain baseline.
  Reading \<^verbatim>\<open>last_rain_value\<close> before any assignment raises UnboundLocalError; the
  \<^verbatim>\<open>or\<close> chain reads it last.
\<close>

definition archive_rain ::
  "datetime option \<Rightarrow> real option local \<Rightarrow> datetime \<Rightarrow> real option \<Rightarrow> error + val" where
  "archive_rain last_record_date last_rain record_datetime rain =
     (case last_record_date of
        None \<Rightarrow> Inr VNone
      | Some lrd \<Rightarrow>
          (case rain of
             None \<Rightarrow> Inr VNone
           | Some rn \<Rightarrow>
               (case last_rain of
                  Unbound \<Rightarrow> Inl UnboundLocalError
                | Bound None \<Rightarrow> Inr VNone
                | Bound (Some lrv) \<Rightarrow>
                    (if time_of_day lrd > time_of_day record_datetime \<or> lrv > rn
                     then Inr (VFloat 0.0)
                     else Inr (VFloat (rn - lrv))))))"

definition record_rain :: "history_record \<Rightarrow> real option" where
  "record_rain r =
     (if uint (hr_dailyRain r) = 2147483647 then None
      else Some (real_of_int (uint (hr_dailyRain r)) / 10))"

definition archive_packet :: "calendar \<Rightarrow> history_record \<Rightarrow> val \<Rightarrow> packet" where
  "archive_packet cal r rain =
     [''usUnits'' \<mapsto> VInt METRICWX,
      ''dateTime'' \<mapsto> VFloat (real_of_int (mktime cal (paged_time r))),
      ''inTemp'' \<mapsto> tenths_field (hr_inTemp r),
      ''inHumidity'' \<mapsto> short_field (hr_inHumidity r),
      ''pressure'' \<mapsto> tenths_field (hr_pressure r),
      ''barometer'' \<mapsto> tenths_field (hr_barometer r),
      ''outTemp'' \<mapsto> tenths_field (hr_outTemp r),
      ''outHumidity'' \<mapsto> (if sint (hr_outHumidity r) = 127 then VNone
                            else VInt (sint (hr_outHumidity r))),
      ''dewPoint'' \<mapsto> tenths_field (hr_dewPoint r),
      ''windchill'' \<mapsto> tenths_field (hr_windChill r),
      ''windSpeed'' \<mapsto> tenths_field (hr_windSpeed r),
      ''windGust'' \<mapsto> tenths_field (hr_windGust r),
      ''windDir'' \<mapsto> short_field (hr_windDir r),
      ''rain'' \<mapsto> rain,
      ''UV'' \<mapsto> (if uint (hr_uv r) = 32767 then VNone else VInt (uint (hr_uv r) div 250)),
      ''radiation'' \<mapsto> (if uint (hr_radiation r) = 2147483647 then VNone
                          else VFloat (real_of_int (uint (hr_radiation r)) / 1267)),
      ''interval'' \<mapsto> VInt 5]"

text \<open>
  One turn of the inner \<^verbatim>\<open>while record_count > 0\<close>: the record is decoded, its packet
  yielded, and the baseline and the last record date move to this record.
\<close>

definition emit_record :: "calendar \<Rightarrow> history_record \<Rightarrow> locals \<Rightarrow> locals outcome" where
  "emit_record cal r L =
     (let record_datetime = paged_time r;
          L1 = L\<lparr>a_record_datetime := Bound record_datetime\<rparr>;
          rain = record_rain r
      in case archive_rain (a_last_record_date L) (a_last_rain_value L) record_datetime rain of
           Inl e \<Rightarrow> Inl (e, L1)
         | Inr v \<Rightarrow>
             Inr (L1\<lparr>a_last_rain_value := Bound rain,
                     a_yielded := a_yielded L @ [archive_packet cal r v],
                     a_last_record_date := Some record_datetime\<rparr>))"

text \<open>
  The inner loop over the reply: \<open>record_count\<close> records are unpacked one after the
  other; a reply that holds fewer makes \<^verbatim>\<open>struct.unpack\<close> raise.
\<close>

fun emit_records :: "calendar \<Rightarrow> nat \<Rightarrow> history_record list \<Rightarrow> locals \<Rightarrow> locals outcome" where
  "emit_records cal 0 rec_packet L = Inr L"
| "emit_records cal (Suc n) [] L = Inl (StructError, L)"
| "emit_records cal (Suc n) (r # rec_packet) L =
     (case emit_record cal r L of
        Inl err \<Rightarrow> Inl err
      | Inr L' \<Rightarrow> emit_records cal n rec_packet L')"

section \<open>The archive path: paging through the years\<close>

definition batch_size :: "int \<Rightarrow> int \<Rightarrow> int" where
  "batch_size year_record_count start_record =
     (if 100 + start_record \<ge> year_record_count then year_record_count - start_record - 1
      else 100)"

function traverse ::
  "calendar \<Rightarrow> station \<Rightarrow> history_file \<Rightarrow> int \<Rightarrow> int \<Rightarrow> locals \<Rightarrow> locals outcome" where
  "traverse cal st hf year_index start_record L =
     (if year_index \<ge> 7 then
        (if batch_size (count_at hf year_index) start_record > 0 then
           (case getHistoryData st (year_at hf year_index)
                   (batch_size (count_at hf year_index) start_record) start_record L of
              Inl err \<Rightarrow> Inl err
            | Inr (rec_packet, L1) \<Rightarrow>
                (case emit_records cal (nat (batch_size (count_at hf year_index) start_record))
                        rec_packet L1 of
                   Inl err \<Rightarrow> Inl err
                 | Inr L2 \<Rightarrow>
                     (if start_record + batch_size (count_at hf year_index) start_record
                           \<ge> count_at hf year_index - 1
                      then traverse cal st hf (year_index - 1) 0 L2
                      else traverse cal st hf year_index
                             (start_record + batch_size (count_at hf year_index) start_record) L2)))
         else if start_record \<ge> count_at hf year_index - 1
           then traverse cal st hf (year_index - 1) 0 L
           else traverse cal st hf year_index start_record L)
      else Inr L)"
  by pat_completeness auto
termination
  by (relation "measures [\<lambda>(cal, st, hf, year_index, start_record, L). nat (year_index - 6),
                          \<lambda>(cal, st, hf, year_index, start_record, L).
                             nat (count_at hf year_index - start_record)]")
     (auto simp: batch_size_def split: if_splits)

declare traverse.simps [simp del]

section \<open>The archive path: the generator\<close>

datatype resume = Finished locals | Resume int int locals

text \<open>
  The head of the outer loop after the HISTORY_FILE reply is decoded: the year slot and
  the record to start from, or the \<^verbatim>\<open>return\<close> when the station holds no year to resume in.
\<close>

definition resume_point ::
  "calendar \<Rightarrow> station \<Rightarrow> history_file \<Rightarrow> int option \<Rightarrow> locals \<Rightarrow> resume outcome option" where
  "resume_point cal st hf lastTimestamp L =
     (case lastTimestamp of
        None \<Rightarrow>
          (case first_year_index (hf_years hf) of
             Inl e \<Rightarrow> Some (Inl (e, L))
           | Inr year_index \<Rightarrow>
               Some (Inr (Resume year_index 0
                 (L\<lparr>a_last_rain_value := Bound (Some 0), a_last_record_date := None\<rparr>))))
      | Some ts \<Rightarrow>
          (let start_date = fromtimestamp cal ts;
               L1 = L\<lparr>a_last_record_date := Some start_date\<rparr>
           in case resume_year_index (hf_years hf) (year_of cal start_date) of
                None \<Rightarrow> Some (Inr (Finished L1))
              | Some year_index \<Rightarrow>
                  (case find_start st (year_at hf year_index) start_date 0
                          (count_at hf year_index - 1) L1 of
                     None \<Rightarrow> None
                   | Some (Inl err) \<Rightarrow> Some (Inl err)
                   | Some (Inr (sample, L2)) \<Rightarrow> Some (Inr (Resume year_index sample L2)))))"

text \<open>
  \<^verbatim>\<open>genStartupRecords\<close> after the connection is made. The result is \<open>None\<close> when the
  generator never finishes; otherwise the locals at the end (with every packet yielded and
  every request sent), after a \<^verbatim>\<open>return\<close> or \<^verbatim>\<open>break\<close> (\<open>Inr\<close>) or at the exception
  that left it (\<open>Inl\<close>).
\<close>

partial_function (option) genStartupRecords ::
  "calendar \<Rightarrow> station \<Rightarrow> int option \<Rightarrow> locals \<Rightarrow> locals outcome option" where
  "genStartupRecords cal st lastTimestamp L =
     (case history_file st of
        None \<Rightarrow> Some (Inl (RetriesExceeded, L\<lparr>a_requests := a_requests L @ [HISTORY_FILE]\<rparr>))
      | Some hf \<Rightarrow>
          (if length (hf_years hf) \<noteq> 8 \<or> length (hf_counts hf) \<noteq> 8
           then Some (Inl (StructError, L\<lparr>a_requests := a_requests L @ [HISTORY_FILE]\<rparr>))
           else
             (case resume_point cal st hf lastTimestamp
                     (L\<lparr>a_requests := a_requests L @ [HISTORY_FILE]\<rparr>) of
                None \<Rightarrow> None
              | Some (Inl err) \<Rightarrow> Some (Inl err)
              | Some (Inr (Finished L1)) \<Rightarrow> Some (Inr L1)
              | Some (Inr (Resume year_index start_record L1)) \<Rightarrow>
                  (if year_index = 7 \<and> start_record = count_at hf year_index - 1
                   then Some (Inr L1)
                   else
                     (case traverse cal st hf year_index start_record L1 of
                        Inl err \<Rightarrow> Some (Inl err)
                      | Inr L2 \<Rightarrow>
                          (case a_record_datetime L2 of
                             Unbound \<Rightarrow> Some (Inl (UnboundLocalError, L2))
                           | Bound record_datetime \<Rightarrow>
                               genStartupRecords cal st
                                 (Some (mktime cal record_datetime)) L2))))))"

declare genStartupRecords.simps [code]

definition initial_locals :: locals where
  "initial_locals =
     \<lparr>a_last_rain_value = Unbound, a_last_record_date = None, a_record_datetime = Unbound,
      a_requests = [], a_yielded = []\<rparr>"

section \<open>A station and a calendar for the examples\<close>

text \<open>
  A station that holds the records of each year in a list and answers a HISTORY_DATA
  request with the records it has from the starting record on.
\<close>

definition station_of :: "int list \<Rightarrow> (int \<Rightarrow> history_record list) \<Rightarrow> station" where
  "station_of years store =
     \<lparr>history_file =
        Some \<lparr>hf_years = years,
              hf_counts = map (\<lambda>y. if y = 0 then 0 else int (length (store y))) years\<rparr>,
      history_data =
        (\<lambda>year record_count starting_record.
           if 0 \<le> starting_record \<and> 0 \<le> record_count
           then Some (take (nat record_count) (drop (nat starting_record) (store year)))
           else Some [])\<rparr>"

text \<open>The calendar of a host whose local time is UTC; years are Gregorian.\<close>

definition utc_year :: "datetime \<Rightarrow> int" where
  "utc_year dt =
     (let days = dt div 86400000000;
          n400 = days div 146097; d1 = days mod 146097;
          n100 = d1 div 36524; d2 = d1 mod 36524;
          n4 = d2 div 1461; d3 = d2 mod 1461;
          n1 = d3 div 365
      in 1601 + 400 * n400 + 100 * n100 + 4 * n4 + n1
           - (if n1 = 4 \<or> n100 = 4 then 1 else 0))"

definition utc_calendar :: calendar where
  "utc_calendar =
     \<lparr>fromtimestamp = (\<lambda>ts. (ts + 11644473600) * 1000000),
      mktime = (\<lambda>dt. dt div 1000000 - 11644473600),
      year_of = utc_year\<rparr>"

text \<open>A record with the given tick counter and daily rain (in tenths of a millimetre).\<close>

definition sample_record :: "64 word \<Rightarrow> 32 word \<Rightarrow> history_record" where
  "sample_record ticks rain =
     \<lparr>hr_dateTime = ticks, hr_inTemp = 215, hr_inHumidity = 49, hr_pressure = 10143,
      hr_barometer = 9984, hr_outTemp = 159, hr_outHumidity = 71, hr_dewPoint = 74,
      hr_windChill = 158, hr_heatIndex = 255, hr_windSpeed = 15, hr_windGust = 38,
      hr_windDir = 95, hr_rainRate = 0, hr_dailyRain = rain, hr_weeklyRain = rain,
      hr_monthlyRain = rain, hr_yearlyRain = rain, hr_uv = 750, hr_radiation = 674930\<rparr>"
section \<open>Statements of the specification, for comparison\<close>

text \<open>
  The incremental rain of the live path as the specification words it: absent without a
  baseline, the difference (in millimetres) when the cumulative reading has not gone down
  and the time of day has not wrapped, zero otherwise. It has no case for the sentinel.
\<close>

definition claimed_loop_rain :: "driver \<Rightarrow> datetime \<Rightarrow> nowrecord \<Rightarrow> val" where
  "claimed_loop_rain d current_time r =
     (case (last_rain_value d, last_rain_time d) of
        (Some lrv, Some lrt) \<Rightarrow>
          (if nr_dailyRain r \<ge> lrv \<and> time_of_day current_time > time_of_day lrt then
             (if rain_unit d = 0 then VFloat (nr_dailyRain r - lrv)
              else VFloat ((nr_dailyRain r - lrv) * 25.4))
           else VFloat 0.0)
      | _ \<Rightarrow> VNone)"

text \<open>A driver whose baseline is 10.0 mm, read at 08:00 on 2017-06-01.\<close>

definition morning_driver :: driver where
  "morning_driver =
     metric_driver\<lparr>last_rain_value := Some 10, last_rain_time := Some 13140777600000000\<rparr>"

section \<open>Stations that hold what the driver asks for\<close>

text \<open>
  The station holds the records \<open>recs\<close> for a year when a request for one record at an
  index of the year is answered with that record first. The driver relies on it; the
  model states it where a property needs it.
\<close>

definition holds_year :: "station \<Rightarrow> int \<Rightarrow> history_record list \<Rightarrow> bool" where
  "holds_year st year recs =
     (\<forall>i \<in> {0..<length recs}.
        map_option (take 1) (history_data st year 1 (int i)) = Some [recs ! i])"

text \<open>A HISTORY_DATA request is answered when the reply holds the records asked for.\<close>

fun answered :: "station \<Rightarrow> request \<Rightarrow> bool" where
  "answered st HISTORY_FILE = (history_file st \<noteq> None)"
| "answered st (HISTORY_DATA year record_count starting_record) =
     (case history_data st year record_count starting_record of
        None \<Rightarrow> False
      | Some rx_data \<Rightarrow> nat record_count \<le> length rx_data)"

text \<open>The packets yielded by a run, whether it ended or raised.\<close>

definition yielded :: "locals outcome \<Rightarrow> packet list" where
  "yielded res = (case res of Inl (e, L) \<Rightarrow> a_yielded L | Inr L \<Rightarrow> a_yielded L)"

definition requests :: "locals outcome \<Rightarrow> request list" where
  "requests res = (case res of Inl (e, L) \<Rightarrow> a_requests L | Inr L \<Rightarrow> a_requests L)"

text \<open>
  The HISTORY_DATA requests of the paging loop, by the loop's own arithmetic (the batch
  size, the step of \<^verbatim>\<open>start_record\<close> and the move to the next year slot) without the
  station: what \<open>traverse\<close> sends when every request is answered.
\<close>

function page_requests :: "history_file \<Rightarrow> int \<Rightarrow> int \<Rightarrow> request list" where
  "page_requests hf year_index start_record =
     (if year_index \<ge> 7 then
        (if batch_size (count_at hf year_index) start_record > 0 then
           HISTORY_DATA (year_at hf year_index)
             (batch_size (count_at hf year_index) start_record) start_record
           # (if start_record + batch_size (count_at hf year_index) start_record
                  \<ge> count_at hf year_index - 1
              then page_requests hf (year_index - 1) 0
              else page_requests hf year_index
                     (start_record + batch_size (count_at hf year_index) start_record))
         else if start_record \<ge> count_at hf year_index - 1
           then page_requests hf (year_index - 1) 0
           else page_requests hf year_index start_record)
      else [])"
  by pat_completeness auto
termination
  by (relation "measures [\<lambda>(hf, year_index, start_record). nat (year_index - 6),
                          \<lambda>(hf, year_index, start_record).
                             nat (count_at hf year_index - start_record)]")
     (auto simp: batch_size_def split: if_splits)

declare page_requests.simps [simp del]

section \<open>Statements of the specification, for comparison (archive)\<close>

text \<open>
  The resume point as the specification words it: the smallest index whose record
  timestamp is not below the target, or the number of records when the target is later
  than every record.
\<close>

definition claimed_start :: "history_record list \<Rightarrow> datetime \<Rightarrow> int" where
  "claimed_start recs T = int (length (takeWhile (\<lambda>r. record_time r < T) recs))"

text \<open>
  The year scan as the specification words it: the slots are visited newest first
  (slot 7 first) and the scan stops at the first year not below the target year.
\<close>

definition claimed_resume_year_index :: "int list \<Rightarrow> int \<Rightarrow> int option" where
  "claimed_resume_year_index years start_year =
     map_option fst (find (\<lambda>(index, ws_year). ws_year \<ge> start_year) (enumerate7 years))"

section \<open>Example stations\<close>

text \<open>Three records of 2017-06-01, at 08:00, 08:05 and 08:10, with 10.0, 12.5 and 13.0 mm.\<close>

definition june_records :: "history_record list" where
  "june_records =
     [sample_record 131407776000000000 100,
      sample_record 131407779000000000 125,
      sample_record 131407782000000000 130]"

definition june_station :: station where
  "june_station =
     station_of [2017, 0, 0, 0, 0, 0, 0, 0] (\<lambda>y. if y = 2017 then june_records else [])"

text \<open>A year of 250 records, five minutes apart from 2017-01-01 00:00 on.\<close>

definition long_records :: "history_record list" where
  "long_records =
     map (\<lambda>i. sample_record (131277024000000000 + 3000000000 * of_nat i) (of_nat i)) [0..<250]"

definition long_station :: station where
  "long_station =
     station_of [2017, 0, 0, 0, 0, 0, 0, 0] (\<lambda>y. if y = 2017 then long_records else [])"

definition long_file :: history_file where
  "long_file = \<lparr>hf_years = [2017, 0, 0, 0, 0, 0, 0, 0], hf_counts = [250, 0, 0, 0, 0, 0, 0, 0]\<rparr>"

text \<open>The locals when the paging of a first pass starts.\<close>

definition first_pass_locals :: locals where
  "first_pass_locals = initial_locals\<lparr>a_last_rain_value := Bound (Some 0)\<rparr>"


section \<open>The batches of a year, in closed form\<close>

text \<open>
  Batches of 100 records from the start index on, clipped to the boundary \<open>count - 1\<close>:
  batch \<open>k\<close> starts at \<open>start + 100 k\<close> and asks for 100 records, or for what is left
  before the index \<open>count - 1\<close> when that is less.
\<close>

definition year_batches :: "int \<Rightarrow> int \<Rightarrow> int \<Rightarrow> request list" where
  "year_batches year year_record_count start_record =
     map (\<lambda>k. HISTORY_DATA year
                (min 100 (year_record_count - 1 - (start_record + 100 * int k)))
                (start_record + 100 * int k))
         [0..<nat ((year_record_count - 1 - start_record + 99) div 100)]"

text \<open>
  A station with two years: two records at the end of 2016 (23:50 and 23:55 on
  2016-12-31, with 4.0 and 4.5 mm) and the three records of June 2017.
\<close>

definition december_records :: "history_record list" where
  "december_records =
     [sample_record 131277018000000000 40,
      sample_record 131277021000000000 45]"

definition two_year_station :: station where
  "two_year_station =
     station_of [2017, 2016, 0, 0, 0, 0, 0, 0]
       (\<lambda>y. if y = 2017 then june_records else if y = 2016 then december_records else [])"

definition two_year_file :: history_file where
  "two_year_file =
     \<lparr>hf_years = [2017, 2016, 0, 0, 0, 0, 0, 0], hf_counts = [3, 2, 0, 0, 0, 0, 0, 0]\<rparr>"


section \<open>Properties of the unit conversion\<close>

text \<open>
  C7. \<^verbatim>\<open>convert_units\<close> never raises: it always returns a value, and when the underlying
  \<^verbatim>\<open>convertStd\<close> raises, whatever the exception, the value returned is the source itself.
\<close>

theorem convert_units_never_raises:
  "(\<exists>r. convert_units convertStd source target = Inr r) \<and>
   (\<forall>e. convertStd source target = Inl e \<longrightarrow> convert_units convertStd source target = Inr source)"
  by (simp add: convert_units_def split: sum.splits)

theorem convert_units_never_raises_witness:
  "sample_convertStd (20.5, ''furlong'', ''group_distance'') METRICWX
     = Inl (LibraryError ''unknown unit'') \<and>
   convert_units sample_convertStd (20.5, ''furlong'', ''group_distance'') METRICWX
     = Inr (20.5, ''furlong'', ''group_distance'')"
  using convert_units_never_raises
    [of sample_convertStd "(20.5, ''furlong'', ''group_distance'')" METRICWX]
  by (simp add: sample_convertStd_def)
section \<open>Properties of the live path\<close>

lemma set_converted_eq:
  "set_converted cs key x u g p =
     Inr (p(key \<mapsto> VFloat (case cs (x, u, g) METRICWX of Inl e \<Rightarrow> x | Inr r \<Rightarrow> fst r)))"
  by (simp add: set_converted_def convert_units_def bind_res_def split: sum.splits)

lemma loop_temperature_frame:
  "\<exists>p'. loop_temperature cs d r p = Inr p' \<and>
     (\<forall>k. k \<notin> {''inTemp'', ''outTemp'', ''dewPoint'', ''windChill''} \<longrightarrow> p' k = p k)"
  by (simp add: loop_temperature_def Let_def bind_res_def set_converted_eq)

lemma loop_pressure_frame:
  "\<exists>p'. loop_pressure cs d r p = Inr p' \<and>
     (\<forall>k. k \<notin> {''pressure'', ''barometer''} \<longrightarrow> p' k = p k)"
  by (simp add: loop_pressure_def Let_def bind_res_def set_converted_eq)

lemma loop_wind_frame:
  "wind_values d r = Inr w \<Longrightarrow>
   \<exists>p'. loop_wind cs d r p = Inr p' \<and>
     (\<forall>k. k \<notin> {''windSpeed'', ''windGust''} \<longrightarrow> p' k = p k)"
  by (cases w) (simp add: loop_wind_def Let_def bind_res_def set_converted_eq)

lemma loop_radiation_frame:
  "k \<notin> {''radiation'', ''UV''} \<Longrightarrow> loop_radiation d r p k = p k"
  by (simp add: loop_radiation_def Let_def)

lemma loop_packet_returns:
  assumes "wind_values d r = Inr w" and "loop_rain d t r = Inr v"
  shows "\<exists>p. loop_packet cs d now t r =
            Inr (p, d\<lparr>last_rain_value := Some (nr_dailyRain r), last_rain_time := Some t\<rparr>)
          \<and> p ''rain'' = Some v"
proof -
  obtain p1 where p1: "loop_temperature cs d r (loop_base now r) = Inr p1"
    using loop_temperature_frame by blast
  obtain p2 where p2: "loop_pressure cs d r p1 = Inr p2"
    using loop_pressure_frame by blast
  obtain p3 where p3: "loop_wind cs d r p2 = Inr p3"
    using loop_wind_frame[OF assms(1)] by blast
  show ?thesis
    by (simp add: loop_packet_def bind_res_def p1 p2 p3 assms(2))
qed

lemma wind_values_baseline:
  "wind_values (d\<lparr>last_rain_value := a, last_rain_time := b\<rparr>) r = wind_values d r"
  by (simp add: wind_values_def)

text \<open>
  C4, as the code has it. When the wind fields do not make \<^verbatim>\<open>math.pow\<close> raise, the turn
  yields a packet. Its incremental rain is absent when there is no baseline, and also when
  the new cumulative reading is the sentinel (at least 214748367); otherwise it is the new
  reading minus the baseline (times 25.4 when the rain unit is inches) when the new reading
  is not below the baseline and the time of day is later than that of the baseline, and
  0.0 in every other case. The baseline value and time are the new reading's afterwards,
  whatever branch was taken.
\<close>

theorem loop_packet_rain:
  assumes wind: "wind_values d r = Inr w"
    and both: "last_rain_value d = None \<or> last_rain_time d \<noteq> None"
  shows "\<exists>p d'. loop_packet cs d now t r = Inr (p, d') \<and>
     last_rain_value d' = Some (nr_dailyRain r) \<and> last_rain_time d' = Some t \<and>
     (last_rain_value d = None \<longrightarrow> p ''rain'' = Some VNone) \<and>
     (\<forall>lrv lrt. last_rain_value d = Some lrv \<and> last_rain_time d = Some lrt \<longrightarrow>
        p ''rain'' = Some
          (if nr_dailyRain r \<ge> 214748367 then VNone
           else if nr_dailyRain r \<ge> lrv \<and> time_of_day t > time_of_day lrt
             then VFloat ((nr_dailyRain r - lrv) * (if rain_unit d = 0 then 1 else 25.4))
           else VFloat 0))"
proof -
  from both have "\<exists>v. loop_rain d t r = Inr v"
    by (auto simp: loop_rain_def split: option.splits)
  then obtain v where v: "loop_rain d t r = Inr v" ..
  from loop_packet_returns[OF wind v] obtain p where
    p: "loop_packet cs d now t r =
          Inr (p, d\<lparr>last_rain_value := Some (nr_dailyRain r), last_rain_time := Some t\<rparr>)"
    and rain: "p ''rain'' = Some v" by blast
  have "last_rain_value d = None \<longrightarrow> v = VNone"
    using v by (auto simp: loop_rain_def)
  moreover have "\<forall>lrv lrt. last_rain_value d = Some lrv \<and> last_rain_time d = Some lrt \<longrightarrow>
        v = (if nr_dailyRain r \<ge> 214748367 then VNone
           else if nr_dailyRain r \<ge> lrv \<and> time_of_day t > time_of_day lrt
             then VFloat ((nr_dailyRain r - lrv) * (if rain_unit d = 0 then 1 else 25.4))
           else VFloat 0)"
    using v by (auto simp: loop_rain_def)
  ultimately show ?thesis using p rain by simp
qed

theorem loop_packet_rain_witness:
  "\<exists>p d'. loop_packet sample_convertStd morning_driver 1496304300 13140777900000000
             (mild_reading\<lparr>nr_dailyRain := 12.5\<rparr>) = Inr (p, d') \<and>
     last_rain_value d' = Some 12.5 \<and> last_rain_time d' = Some 13140777900000000 \<and>
     p ''rain'' = Some (VFloat 2.5)"
  using loop_packet_rain [of morning_driver "mild_reading\<lparr>nr_dailyRain := 12.5\<rparr>"
      "(''meter_per_second'', 1.5, 3.8)" sample_convertStd 1496304300 13140777900000000]
  by (simp add: morning_driver_def metric_driver_def mild_reading_def wind_values_def time_of_day_def)

text \<open>
  C4 as stated fails on a sentinel reading: with a baseline of 10.0 mm at 08:00 and a
  reading of 214748367 at 08:05, the statement gives the difference, the driver gives
  no value.
\<close>

theorem loop_rain_sentinel_counterexample:
  "\<exists>p d'. loop_packet sample_convertStd morning_driver 1496304300 13140777900000000
             (mild_reading\<lparr>nr_dailyRain := 214748367\<rparr>) = Inr (p, d') \<and>
     p ''rain'' = Some VNone \<and>
     claimed_loop_rain morning_driver 13140777900000000 (mild_reading\<lparr>nr_dailyRain := 214748367\<rparr>)
       = VFloat 214748357"
  by (simp add: loop_packet_def bind_res_def loop_temperature_def loop_pressure_def loop_wind_def
      wind_values_def loop_rain_def loop_radiation_def set_converted_eq sample_convertStd_def
      morning_driver_def metric_driver_def mild_reading_def claimed_loop_rain_def time_of_day_def)

text \<open>
  C9. The baseline takes the raw cumulative value even when it is the sentinel: after a
  sentinel reading the stored baseline is that sentinel, and the next valid reading (below
  214748367) yields an incremental rain of 0.0, the branch of a reading below the baseline,
  whatever the times of the two readings.
\<close>

theorem sentinel_baseline_then_zero:
  assumes w1: "wind_values d r1 = Inr w1" and w2: "wind_values d r2 = Inr w2"
    and s1: "nr_dailyRain r1 \<ge> 214748367" and s2: "nr_dailyRain r2 < 214748367"
  shows "\<exists>p1 d1 p2 d2.
     loop_packet cs d now1 t1 r1 = Inr (p1, d1) \<and>
     last_rain_value d1 = Some (nr_dailyRain r1) \<and>
     loop_packet cs d1 now2 t2 r2 = Inr (p2, d2) \<and>
     p2 ''rain'' = Some (VFloat 0) \<and>
     last_rain_value d2 = Some (nr_dailyRain r2)"
proof -
  let ?d1 = "d\<lparr>last_rain_value := Some (nr_dailyRain r1), last_rain_time := Some t1\<rparr>"
  have v1: "loop_rain d t1 r1 = Inr VNone"
    using s1 by (simp add: loop_rain_def split: option.splits)
  from loop_packet_returns[OF w1 v1] obtain p1 where
    p1: "loop_packet cs d now1 t1 r1 = Inr (p1, ?d1)" by blast
  have w2': "wind_values ?d1 r2 = Inr w2"
    using w2 by (simp add: wind_values_baseline)
  have v2: "loop_rain ?d1 t2 r2 = Inr (VFloat 0)"
    using s1 s2 by (simp add: loop_rain_def)
  from loop_packet_returns[OF w2' v2] obtain p2 where
    p2: "loop_packet cs ?d1 now2 t2 r2 =
          Inr (p2, ?d1\<lparr>last_rain_value := Some (nr_dailyRain r2), last_rain_time := Some t2\<rparr>)"
    and rain: "p2 ''rain'' = Some (VFloat 0)" by blast
  show ?thesis using p1 p2 rain by simp
qed

theorem sentinel_baseline_then_zero_witness:
  "\<exists>p1 d1 p2 d2.
     loop_packet sample_convertStd morning_driver 1496304300 13140777900000000
        (mild_reading\<lparr>nr_dailyRain := 214748367\<rparr>) = Inr (p1, d1) \<and>
     last_rain_value d1 = Some 214748367 \<and>
     loop_packet sample_convertStd d1 1496304600 13140778200000000
        (mild_reading\<lparr>nr_dailyRain := 12.5\<rparr>) = Inr (p2, d2) \<and>
     p2 ''rain'' = Some (VFloat 0) \<and>
     last_rain_value d2 = Some 12.5"
  using sentinel_baseline_then_zero [of morning_driver "mild_reading\<lparr>nr_dailyRain := 214748367\<rparr>"
      "(''meter_per_second'', 1.5, 3.8)" "mild_reading\<lparr>nr_dailyRain := 12.5\<rparr>"
      "(''meter_per_second'', 1.5, 3.8)" sample_convertStd 1496304300 13140777900000000
      1496304600 13140778200000000]
  by (simp add: morning_driver_def metric_driver_def mild_reading_def wind_values_def)

text \<open>
  C5. The code at a reading whose pressure is 1014.3 hPa and whose barometer field is the
  sentinel 3276: the packet has no barometer entry, and its pressure, 1014.3 for the same
  reading with a valid barometer, is overwritten with no value.
\<close>

theorem barometer_sentinel_clears_pressure:
  "\<exists>p d'. loop_packet sample_convertStd metric_driver 1496304300 13140777900000000
             (mild_reading\<lparr>nr_barometer := 3276\<rparr>) = Inr (p, d') \<and>
     p ''pressure'' = Some VNone \<and> p ''barometer'' = None \<and>
     (\<exists>p0 d0. loop_packet sample_convertStd metric_driver 1496304300 13140777900000000
             mild_reading = Inr (p0, d0) \<and> p0 ''pressure'' = Some (VFloat 1014.3))"
  by (simp add: loop_packet_def bind_res_def loop_temperature_def loop_pressure_def loop_wind_def
      wind_values_def loop_rain_def loop_radiation_def set_converted_eq sample_convertStd_def
      loop_base_def metric_driver_def mild_reading_def)

text \<open>
  C2. The code at a reading whose two humidity fields are 127, whose inside temperature
  is 3276 and whose wind speed is 3276 in ft/s: the outside humidity carries no value; the
  inside humidity 127, which no guard tests, and the inside temperature 3276, tested
  against 32767 only, are yielded as numbers; the wind speed is scaled before its guard
  and yielded as 998.5248.
\<close>

theorem inHumidity_sentinel_leaks:
  "\<exists>p d'. loop_packet sample_convertStd (metric_driver\<lparr>wind_unit := 5\<rparr>)
             1496304300 13140777900000000
             (mild_reading\<lparr>nr_inHumidity := 127, nr_outHumidity := 127, nr_inTemp := 3276,
                nr_windSpeed := 3276\<rparr>) = Inr (p, d') \<and>
     p ''inHumidity'' = Some (VInt 127) \<and> p ''outHumidity'' = Some VNone \<and>
     p ''inTemp'' = Some (VFloat 3276) \<and> p ''windSpeed'' = Some (VFloat 998.5248)"
  by (simp add: loop_packet_def bind_res_def loop_temperature_def loop_pressure_def loop_wind_def
      wind_values_def loop_rain_def loop_radiation_def set_converted_eq sample_convertStd_def
      loop_base_def metric_driver_def mild_reading_def)

section \<open>The binary search, step by step\<close>

lemma midpoint_lower: "(lower::int) < upper \<Longrightarrow> (upper + lower) div 2 = lower \<Longrightarrow> upper = lower + 1"
  by linarith

lemma find_start_search:
  fixes recs :: "history_record list" and T :: datetime
  assumes probes: "\<And>i. 0 \<le> i \<Longrightarrow> i < int (length recs) \<Longrightarrow>
                     \<exists>rest. history_data st year 1 i = Some (recs ! nat i # rest)"
    and incr: "\<And>i j. 0 \<le> i \<Longrightarrow> i < j \<Longrightarrow> j < int (length recs) \<Longrightarrow>
                     record_time (recs ! nat i) < record_time (recs ! nat j)"
  shows "0 \<le> lower \<Longrightarrow> lower \<le> upper \<Longrightarrow> upper < int (length recs) \<Longrightarrow>
     (\<forall>i. 0 \<le> i \<and> i < lower \<longrightarrow> record_time (recs ! nat i) \<le> T) \<Longrightarrow>
     (upper = int (length recs) - 1 \<or> T < record_time (recs ! nat upper)) \<Longrightarrow>
     \<exists>sample L'. find_start st year T lower upper L = Some (Inr (sample, L')) \<and>
        lower \<le> sample \<and> sample \<le> upper \<and>
        (\<forall>i. 0 \<le> i \<and> i < sample \<longrightarrow> record_time (recs ! nat i) \<le> T) \<and>
        (sample = int (length recs) - 1 \<or> T < record_time (recs ! nat sample)) \<and>
        a_last_record_date L' = a_last_record_date L \<and>
        a_yielded L' = a_yielded L \<and>
        (lower = upper \<longrightarrow> L' = L) \<and>
        (lower < upper \<longrightarrow>
           (\<exists>reqs i. a_requests L' = a_requests L @ reqs @ [HISTORY_DATA year 1 i] \<and>
              0 \<le> i \<and> i < int (length recs) \<and>
              a_last_rain_value L' = Bound (Some (probe_rain (recs ! nat i))) \<and>
              a_record_datetime L' = Bound (record_time (recs ! nat i))))"
proof (induction "nat (upper - lower)" arbitrary: lower upper L rule: less_induct)
  case less
  show ?case
  proof (cases "lower = upper")
    case True
    then show ?thesis
      using less.prems by (subst find_start.simps) simp
  next
    case False
    define sample where "sample = (upper + lower) div 2"
    have lu: "lower < upper" using False less.prems by simp
    have s_lo: "lower \<le> sample" and s_hi: "sample < upper"
      using lu by (simp_all add: sample_def)
    have s0: "0 \<le> sample" and sN: "sample < int (length recs)"
      using s_lo s_hi less.prems by simp_all
    obtain rest where reply: "history_data st year 1 sample = Some (recs ! nat sample # rest)"
      using probes[OF s0 sN] by blast
    define r where "r = recs ! nat sample"
    define L1 where "L1 = L\<lparr>a_requests := a_requests L @ [HISTORY_DATA year 1 sample]\<rparr>"
    define L2 where "L2 = L1\<lparr>a_record_datetime := Bound (record_time r),
                              a_last_rain_value := Bound (Some (probe_rain r))\<rparr>"
    have step: "find_start st year T lower upper L =
        (if T = record_time r then Some (Inr (sample + 1, L2))
         else if T > record_time r then
           (if lower = sample then Some (Inr (sample + 1, L2))
            else find_start st year T (sample + 1) upper L2)
         else
           (if upper = sample then Some (Inr (sample, L2))
            else find_start st year T lower sample L2))"
      using False
      by (subst find_start.simps)
         (simp add: getHistoryData_def reply Let_def sample_def[symmetric] r_def[symmetric]
                    L1_def[symmetric] L2_def[symmetric])
    have L2_date: "a_last_record_date L2 = a_last_record_date L"
      and L2_out: "a_yielded L2 = a_yielded L"
      and L2_req: "a_requests L2 = a_requests L @ [HISTORY_DATA year 1 sample]"
      and L2_rain: "a_last_rain_value L2 = Bound (Some (probe_rain (recs ! nat sample)))"
      and L2_dt: "a_record_datetime L2 = Bound (record_time (recs ! nat sample))"
      by (simp_all add: L2_def L1_def r_def)
    have below: "\<And>i. 0 \<le> i \<Longrightarrow> i < sample \<Longrightarrow> record_time (recs ! nat i) < record_time r"
      using incr sN by (simp add: r_def)
    have final: "\<exists>reqs i. a_requests L2 = a_requests L @ reqs @ [HISTORY_DATA year 1 i] \<and>
              0 \<le> i \<and> i < int (length recs) \<and>
              a_last_rain_value L2 = Bound (Some (probe_rain (recs ! nat i))) \<and>
              a_record_datetime L2 = Bound (record_time (recs ! nat i))"
      using L2_req L2_rain L2_dt s0 sN by (intro exI[of _ "[]"] exI[of _ sample]) simp
    consider (eq) "T = record_time r" | (gt) "T > record_time r" | (lt) "T < record_time r"
      by linarith
    then show ?thesis
    proof cases
      case eq
      have up: "\<forall>i. 0 \<le> i \<and> i < sample + 1 \<longrightarrow> record_time (recs ! nat i) \<le> T"
      proof (intro allI impI)
        fix i assume "0 \<le> i \<and> i < sample + 1"
        then have "i < sample \<or> i = sample" "0 \<le> i" by auto
        then show "record_time (recs ! nat i) \<le> T"
          using below[of i] eq by (auto simp: r_def)
      qed
      have nxt: "sample + 1 = int (length recs) - 1 \<or> T < record_time (recs ! nat (sample + 1))"
      proof (cases "sample + 1 = int (length recs) - 1")
        case True then show ?thesis by simp
      next
        case False
        then have "sample + 1 < int (length recs)" using s_hi less.prems by simp
        from incr[OF s0 _ this] show ?thesis using eq by (simp add: r_def)
      qed
      show ?thesis
        using step eq up nxt s_lo s_hi lu L2_date L2_out final by simp
    next
      case gt
      have up: "\<forall>i. 0 \<le> i \<and> i < sample + 1 \<longrightarrow> record_time (recs ! nat i) \<le> T"
      proof (intro allI impI)
        fix i assume "0 \<le> i \<and> i < sample + 1"
        then have "i < sample \<or> i = sample" "0 \<le> i" by auto
        then show "record_time (recs ! nat i) \<le> T"
          using below[of i] gt by (auto simp: r_def)
      qed
      show ?thesis
      proof (cases "lower = sample")
        case True
        then have "upper = sample + 1"
          using midpoint_lower[OF lu] by (simp add: sample_def)
        then show ?thesis
          using step gt True up less.prems(5) lu L2_date L2_out final by simp
      next
        case False
        have m: "nat (upper - (sample + 1)) < nat (upper - lower)"
          using s_lo s_hi by simp
        have "0 \<le> sample + 1" "sample + 1 \<le> upper" using s0 s_hi by simp_all
        from less.hyps[OF m this less.prems(3) up less.prems(5), of L2]
        obtain sm L' where
          res: "find_start st year T (sample + 1) upper L2 = Some (Inr (sm, L'))"
          and b: "sample + 1 \<le> sm" "sm \<le> upper"
            "\<forall>i. 0 \<le> i \<and> i < sm \<longrightarrow> record_time (recs ! nat i) \<le> T"
            "sm = int (length recs) - 1 \<or> T < record_time (recs ! nat sm)"
          and fr: "a_last_record_date L' = a_last_record_date L2" "a_yielded L' = a_yielded L2"
          and same: "sample + 1 = upper \<longrightarrow> L' = L2"
          and more: "sample + 1 < upper \<longrightarrow>
             (\<exists>reqs i. a_requests L' = a_requests L2 @ reqs @ [HISTORY_DATA year 1 i] \<and>
                0 \<le> i \<and> i < int (length recs) \<and>
                a_last_rain_value L' = Bound (Some (probe_rain (recs ! nat i))) \<and>
                a_record_datetime L' = Bound (record_time (recs ! nat i)))"
          by blast
        have fin': "\<exists>reqs i. a_requests L' = a_requests L @ reqs @ [HISTORY_DATA year 1 i] \<and>
              0 \<le> i \<and> i < int (length recs) \<and>
              a_last_rain_value L' = Bound (Some (probe_rain (recs ! nat i))) \<and>
              a_record_datetime L' = Bound (record_time (recs ! nat i))"
        proof (cases "sample + 1 = upper")
          case True then show ?thesis using same final by simp
        next
          case False
          then have "sample + 1 < upper" using s_hi by simp
          with more obtain reqs i where
            "a_requests L' = a_requests L2 @ reqs @ [HISTORY_DATA year 1 i]"
            "0 \<le> i" "i < int (length recs)"
            "a_last_rain_value L' = Bound (Some (probe_rain (recs ! nat i)))"
            "a_record_datetime L' = Bound (record_time (recs ! nat i))" by blast
          then show ?thesis
            using L2_req by (intro exI[of _ "HISTORY_DATA year 1 sample # reqs"] exI[of _ i]) simp
        qed
        show ?thesis
          using step gt False res b fr fin' s_lo lu L2_date L2_out by simp
      qed
    next
      case lt
      have ne: "upper \<noteq> sample" using s_hi by simp
      have m: "nat (sample - lower) < nat (upper - lower)"
        using s_lo s_hi by simp
      have sN': "sample < int (length recs)" by (rule sN)
      have inv: "sample = int (length recs) - 1 \<or> T < record_time (recs ! nat sample)"
        using lt by (simp add: r_def)
      from less.hyps[OF m less.prems(1) s_lo sN' less.prems(4) inv, of L2]
      obtain sm L' where
        res: "find_start st year T lower sample L2 = Some (Inr (sm, L'))"
        and b: "lower \<le> sm" "sm \<le> sample"
          "\<forall>i. 0 \<le> i \<and> i < sm \<longrightarrow> record_time (recs ! nat i) \<le> T"
          "sm = int (length recs) - 1 \<or> T < record_time (recs ! nat sm)"
        and fr: "a_last_record_date L' = a_last_record_date L2" "a_yielded L' = a_yielded L2"
        and same: "lower = sample \<longrightarrow> L' = L2"
        and more: "lower < sample \<longrightarrow>
           (\<exists>reqs i. a_requests L' = a_requests L2 @ reqs @ [HISTORY_DATA year 1 i] \<and>
              0 \<le> i \<and> i < int (length recs) \<and>
              a_last_rain_value L' = Bound (Some (probe_rain (recs ! nat i))) \<and>
              a_record_datetime L' = Bound (record_time (recs ! nat i)))"
        by blast
      have fin': "\<exists>reqs i. a_requests L' = a_requests L @ reqs @ [HISTORY_DATA year 1 i] \<and>
            0 \<le> i \<and> i < int (length recs) \<and>
            a_last_rain_value L' = Bound (Some (probe_rain (recs ! nat i))) \<and>
            a_record_datetime L' = Bound (record_time (recs ! nat i))"
      proof (cases "lower = sample")
        case True then show ?thesis using same final by simp
      next
        case False
        then have "lower < sample" using s_lo by simp
        with more obtain reqs i where
          "a_requests L' = a_requests L2 @ reqs @ [HISTORY_DATA year 1 i]"
          "0 \<le> i" "i < int (length recs)"
          "a_last_rain_value L' = Bound (Some (probe_rain (recs ! nat i)))"
          "a_record_datetime L' = Bound (record_time (recs ! nat i))" by blast
        then show ?thesis
          using L2_req by (intro exI[of _ "HISTORY_DATA year 1 sample # reqs"] exI[of _ i]) simp
      qed
      have "\<not> T > record_time r" "T \<noteq> record_time r" using lt by simp_all
      then show ?thesis
        using step ne res b fr fin' s_hi lu L2_date L2_out by simp
    qed
  qed
qed


section \<open>What the paging loop yields\<close>


lemma archive_rain_bound:
  "lrv \<noteq> Unbound \<Longrightarrow> \<exists>v. archive_rain lrd lrv t rn = Inr v"
  by (cases lrv) (auto simp: archive_rain_def split: option.splits)

lemma emit_record_bound:
  assumes "a_last_rain_value L \<noteq> Unbound"
  shows "\<exists>L'. emit_record cal r L = Inr L' \<and> a_requests L' = a_requests L \<and>
           a_last_rain_value L' \<noteq> Unbound \<and> a_record_datetime L' \<noteq> Unbound"
proof -
  obtain v where "archive_rain (a_last_record_date L) (a_last_rain_value L) (paged_time r) (record_rain r) = Inr v"
    using archive_rain_bound[OF assms] by blast
  then show ?thesis by (simp add: emit_record_def Let_def)
qed

lemma emit_records_bound:
  "a_last_rain_value L \<noteq> Unbound \<Longrightarrow> n \<le> length recs \<Longrightarrow>
   \<exists>L'. emit_records cal n recs L = Inr L' \<and> a_requests L' = a_requests L \<and>
        a_last_rain_value L' \<noteq> Unbound"
proof (induction cal n recs L rule: emit_records.induct)
  case (1 cal rec_packet L)
  then show ?case by simp
next
  case (2 cal n L)
  then show ?case by simp
next
  case (3 cal n r rec_packet L)
  obtain L1 where e: "emit_record cal r L = Inr L1" and q: "a_requests L1 = a_requests L"
    and b: "a_last_rain_value L1 \<noteq> Unbound"
    using emit_record_bound[OF "3.prems"(1)] by blast
  from "3.IH"[OF e b] "3.prems"(2) obtain L' where
    "emit_records cal n rec_packet L1 = Inr L'" "a_requests L' = a_requests L1"
    "a_last_rain_value L' \<noteq> Unbound" by auto
  then show ?case using e q by simp
qed





section \<open>Properties of the binary search\<close>

lemma holds_year_probe:
  assumes "holds_year st year recs" and "0 \<le> i" and "i < int (length recs)"
  shows "\<exists>rest. history_data st year 1 i = Some (recs ! nat i # rest)"
proof -
  have mem: "nat i \<in> {0..<length recs}" using assms(2,3) by simp
  from assms(1) have all: "\<forall>k\<in>{0..<length recs}.
      map_option (take 1) (history_data st year 1 (int k)) = Some [recs ! k]"
    by (simp only: holds_year_def)
  from bspec[OF all mem]
  have "map_option (take 1) (history_data st year 1 i) = Some [recs ! nat i]"
    using assms(2) by simp
  then obtain xs where xs: "history_data st year 1 i = Some xs" "take 1 xs = [recs ! nat i]"
    by (cases "history_data st year 1 i") simp_all
  from xs(2) obtain rest where "xs = recs ! nat i # rest"
    by (cases xs) simp_all
  then show ?thesis using xs(1) by simp
qed


lemma increasing_times:
  assumes "sorted_wrt (<) (map record_time recs)" and "0 \<le> i" and "i < j" and "j < int (length recs)"
  shows "record_time (recs ! nat i) < record_time (recs ! nat j)"
proof -
  have a: "nat i < nat j" and b: "nat j < length (map record_time recs)"
    using assms(2-4) by simp_all
  have c2: "nat j < length recs" using b by simp
  have c1: "nat i < length recs" using a c2 by (rule less_trans)
  note c = c1 c2
  have "map record_time recs ! nat i < map record_time recs ! nat j"
    using sorted_wrt_nth_less[OF assms(1) a b] .
  then show ?thesis using c by simp
qed

text \<open>
  C1, as the code has it. For a year of one or more records with strictly increasing
  timestamps, each returned by the station on request, the search ends and returns an index
  of the year: every record before that index is not later than the target, and unless the
  index is the last one of the year its own record is later than the target. So the search
  returns the smallest index whose timestamp is greater than the target, and the last
  index when no record is later than the target.
\<close>

theorem find_start_resolves:
  assumes "recs \<noteq> []"
    and "holds_year st year recs"
    and "sorted_wrt (<) (map record_time recs)"
  shows "\<exists>sample L'. find_start st year T 0 (int (length recs) - 1) L = Some (Inr (sample, L')) \<and>
     0 \<le> sample \<and> sample < int (length recs) \<and>
     (\<forall>i \<in> {0..<nat sample}. record_time (recs ! i) \<le> T) \<and>
     (sample < int (length recs) - 1 \<longrightarrow> T < record_time (recs ! nat sample))"
proof -
  have n: "0 \<le> int (length recs) - 1" "int (length recs) - 1 < int (length recs)"
    using assms(1) by (simp_all add: Suc_leI)
  have inv: "int (length recs) - 1 = int (length recs) - 1 \<or>
             T < record_time (recs ! nat (int (length recs) - 1))" by simp
  have base: "\<forall>i. 0 \<le> i \<and> i < (0::int) \<longrightarrow> record_time (recs ! nat i) \<le> T" by simp
  from find_start_search[of recs st year 0 "int (length recs) - 1" T L,
        OF holds_year_probe[OF assms(2)] increasing_times[OF assms(3)] _ n base inv]
  obtain sample L' where
    r: "find_start st year T 0 (int (length recs) - 1) L = Some (Inr (sample, L'))"
    and b: "0 \<le> sample" "sample \<le> int (length recs) - 1"
    and lo: "\<forall>i. 0 \<le> i \<and> i < sample \<longrightarrow> record_time (recs ! nat i) \<le> T"
    and hi: "sample = int (length recs) - 1 \<or> T < record_time (recs ! nat sample)"
    by auto
  have "\<forall>i \<in> {0..<nat sample}. record_time (recs ! i) \<le> T"
  proof
    fix i assume "i \<in> {0..<nat sample}"
    then have "0 \<le> int i \<and> int i < sample" by auto
    with lo have "record_time (recs ! nat (int i)) \<le> T" by blast
    then show "record_time (recs ! i) \<le> T" by simp
  qed
  then show ?thesis using r b hi by auto
qed

text \<open>The definitions that evaluate the example of June 2017.\<close>

lemmas june_eval = june_station_def station_of_def june_records_def record_time_def probe_rain_def
  record_rain_def sample_record_def initial_locals_def getHistoryData_def Let_def

lemma june_holds: "holds_year june_station 2017 june_records"
  by code_simp

lemma june_sorted: "sorted_wrt (<) (map record_time june_records)"
  by (simp add: june_records_def record_time_def sample_record_def)

theorem find_start_resolves_witness:
  "\<exists>sample L'. find_start june_station 2017 13140777900000000 0 (int (length june_records) - 1)
       initial_locals = Some (Inr (sample, L')) \<and>
     0 \<le> sample \<and> sample < int (length june_records) \<and>
     (\<forall>i \<in> {0..<nat sample}. record_time (june_records ! i) \<le> 13140777900000000) \<and>
     (sample < int (length june_records) - 1 \<longrightarrow>
        13140777900000000 < record_time (june_records ! nat sample))"
proof -
  have ne: "june_records \<noteq> []" by (simp add: june_records_def)
  show ?thesis
    using find_start_resolves[OF ne june_holds june_sorted] .
qed

text \<open>
  C1 as stated fails twice on the three records of 08:00, 08:05 and 08:10. For the target
  08:05 the smallest index not below the target is 1 and the search returns 2 (the probe
  of index 1 matches and resolves to the next index); for the target 08:15, later than
  every record, the statement gives 3 and the search returns 2.
\<close>

theorem find_start_counterexample:
  "map_option (map_sum fst fst)
     (find_start june_station 2017 13140777900000000 0 2 initial_locals) = Some (Inr 2) \<and>
   claimed_start june_records 13140777900000000 = 1 \<and>
   map_option (map_sum fst fst)
     (find_start june_station 2017 13140783000000000 0 2 initial_locals) = Some (Inr 2) \<and>
   claimed_start june_records 13140783000000000 = 3"
  by (simp add: find_start.simps june_eval claimed_start_def)

section \<open>Running the generator on the examples\<close>

lemma emit_records_Nil:
  "emit_records cal n [] L = (if n = 0 then Inr L else Inl (StructError, L))"
  by (cases n) simp_all

lemma emit_records_Cons:
  "emit_records cal n (r # rec_packet) L =
     (if n = 0 then Inr L
      else case emit_record cal r L of
             Inl err \<Rightarrow> Inl err
           | Inr L' \<Rightarrow> emit_records cal (n - 1) rec_packet L')"
  by (cases n) (simp_all split: sum.splits)

text \<open>
  The tick counters of the example records are whole seconds and doubles themselves:
  the paging loop computes their times without a rounding error.
\<close>

lemma paged_examples:
  "tenth_microseconds (double_of_int 131407776000000000) = 13140777600000000"
  "tenth_microseconds (double_of_int 131407779000000000) = 13140777900000000"
  "tenth_microseconds (double_of_int 131407782000000000) = 13140778200000000"
  "tenth_microseconds (double_of_int 131277018000000000) = 13127701800000000"
  "tenth_microseconds (double_of_int 131277021000000000) = 13127702100000000"
  by code_simp+

text \<open>
  A tick counter one tenth of a second later than 23:50:00.9999996 shows the rounding:
  the search reads 13127701800999999 microseconds, the paging loop 13127701801000000.
\<close>

lemma paged_time_rounds:
  "record_time (sample_record 131277018009999996 40) = 13127701800999999"
  "paged_time (sample_record 131277018009999996 40) = 13127701801000000"
  by (simp add: record_time_def sample_record_def, simp add: paged_time_def sample_record_def, code_simp)

text \<open>The definitions that evaluate a run of the generator on an example.\<close>

lemmas gen_eval = emit_records_Nil emit_records_Cons paged_time_def paged_examples genStartupRecords.simps resume_point_def find_start.simps traverse.simps
  emit_record_def archive_rain_def batch_size_def count_at_def year_at_def
  resume_year_index_def first_year_index_def enumerate7_def utc_calendar_def utc_year_def
  time_of_day_def yielded_def requests_def


section \<open>The rain baseline after the search\<close>








section \<open>The requests of the paging loop\<close>

lemma traverse_requests:
  "a_last_rain_value L \<noteq> Unbound \<Longrightarrow>
   \<forall>rq \<in> set (page_requests hf year_index start_record). answered st rq \<Longrightarrow>
   \<exists>L'. traverse cal st hf year_index start_record L = Inr L' \<and>
        a_requests L' = a_requests L @ page_requests hf year_index start_record \<and>
        a_last_rain_value L' \<noteq> Unbound"
proof (induction cal st hf year_index start_record L rule: traverse.induct)
  case (1 cal st hf year_index start_record L)
  let ?n = "batch_size (count_at hf year_index) start_record"
  let ?rq = "HISTORY_DATA (year_at hf year_index) ?n start_record"
  show ?case
  proof (cases "year_index \<ge> 7")
    case False
    then show ?thesis using "1.prems"(1)
      by (subst traverse.simps, subst page_requests.simps) simp
  next
    case y: True
    show ?thesis
    proof (cases "?n > 0")
      case False
      show ?thesis
      proof (cases "start_record \<ge> count_at hf year_index - 1")
        case True
        have t: "traverse cal st hf year_index start_record L = traverse cal st hf (year_index - 1) 0 L"
          using y False True by (subst traverse.simps) simp
        have p: "page_requests hf year_index start_record = page_requests hf (year_index - 1) 0"
          using y False True by (subst page_requests.simps) simp
        from "1.IH"(3)[OF y False True "1.prems"(1)] "1.prems"(2) show ?thesis
          unfolding t p by simp
      next
        case F2: False
        then show ?thesis using False by (simp add: batch_size_def split: if_splits)
      qed
    next
      case n: True
      let ?L1 = "L\<lparr>a_requests := a_requests L @ [?rq]\<rparr>"
      show ?thesis
      proof (cases "start_record + ?n \<ge> count_at hf year_index - 1")
        case True
        have p: "page_requests hf year_index start_record = ?rq # page_requests hf (year_index - 1) 0"
          using y n True by (subst page_requests.simps) simp
        have ans: "answered st ?rq" and rest: "\<forall>rq \<in> set (page_requests hf (year_index - 1) 0). answered st rq"
          using "1.prems"(2) unfolding p by simp_all
        from ans obtain recs where h: "history_data st (year_at hf year_index) ?n start_record = Some recs"
          and len: "nat ?n \<le> length recs"
          by (auto split: option.splits)
        have g: "getHistoryData st (year_at hf year_index) ?n start_record L = Inr (recs, ?L1)"
          using h by (simp add: getHistoryData_def Let_def)
        have b1: "a_last_rain_value ?L1 \<noteq> Unbound" using "1.prems"(1) by simp
        from emit_records_bound[OF b1 len, of cal] obtain L2 where
          e: "emit_records cal (nat ?n) recs ?L1 = Inr L2"
          and q2: "a_requests L2 = a_requests ?L1" and b2: "a_last_rain_value L2 \<noteq> Unbound"
          by blast
        have t: "traverse cal st hf year_index start_record L = traverse cal st hf (year_index - 1) 0 L2"
          using y n g e True by (subst traverse.simps) simp
        have pr: "(recs, ?L1) = (recs, ?L1)" by simp
        from "1.IH"(1)[OF y n g pr e True b2 rest] obtain L' where
          "traverse cal st hf (year_index - 1) 0 L2 = Inr L'"
          "a_requests L' = a_requests L2 @ page_requests hf (year_index - 1) 0"
          "a_last_rain_value L' \<noteq> Unbound" by blast
        then show ?thesis unfolding t p using q2 by simp
      next
        case False
        have p: "page_requests hf year_index start_record
                   = ?rq # page_requests hf year_index (start_record + ?n)"
          using y n False by (subst page_requests.simps) simp
        have ans: "answered st ?rq"
          and rest: "\<forall>rq \<in> set (page_requests hf year_index (start_record + ?n)). answered st rq"
          using "1.prems"(2) unfolding p by simp_all
        from ans obtain recs where h: "history_data st (year_at hf year_index) ?n start_record = Some recs"
          and len: "nat ?n \<le> length recs"
          by (auto split: option.splits)
        have g: "getHistoryData st (year_at hf year_index) ?n start_record L = Inr (recs, ?L1)"
          using h by (simp add: getHistoryData_def Let_def)
        have b1: "a_last_rain_value ?L1 \<noteq> Unbound" using "1.prems"(1) by simp
        from emit_records_bound[OF b1 len, of cal] obtain L2 where
          e: "emit_records cal (nat ?n) recs ?L1 = Inr L2"
          and q2: "a_requests L2 = a_requests ?L1" and b2: "a_last_rain_value L2 \<noteq> Unbound"
          by blast
        have t: "traverse cal st hf year_index start_record L
                   = traverse cal st hf year_index (start_record + ?n) L2"
          using y n g e False by (subst traverse.simps) simp
        have pr: "(recs, ?L1) = (recs, ?L1)" by simp
        from "1.IH"(2)[OF y n g pr e False b2 rest] obtain L' where
          "traverse cal st hf year_index (start_record + ?n) L2 = Inr L'"
          "a_requests L' = a_requests L2 @ page_requests hf year_index (start_record + ?n)"
          "a_last_rain_value L' \<noteq> Unbound" by blast
        then show ?thesis unfolding t p using q2 by simp
      qed
    qed
  qed
qed

lemma year_batches_empty:
  "year_record_count - 1 \<le> start_record \<Longrightarrow> year_batches year year_record_count start_record = []"
  by (simp add: year_batches_def)

lemma year_batches_step:
  assumes "start_record < year_record_count - 1"
  shows "year_batches year year_record_count start_record =
           HISTORY_DATA year (min 100 (year_record_count - 1 - start_record)) start_record
           # year_batches year year_record_count (start_record + 100)"
proof -
  let ?m = "nat ((year_record_count - 1 - (start_record + 100) + 99) div 100)"
  have m: "nat ((year_record_count - 1 - start_record + 99) div 100) = Suc ?m"
    using assms by linarith
  have upt: "[0..<Suc ?m] = 0 # map Suc [0..<?m]"
    by (simp only: map_Suc_upt upt_conv_Cons[of 0 "Suc ?m"] zero_less_Suc if_True)
  show ?thesis
    unfolding year_batches_def m upt
    by (simp add: algebra_simps comp_def)
qed

lemma page_requests_year:
  "7 \<le> year_index \<Longrightarrow>
   page_requests hf year_index start_record =
     year_batches (year_at hf year_index) (count_at hf year_index) start_record
     @ page_requests hf (year_index - 1) 0"
proof (induction hf year_index start_record rule: page_requests.induct)
  case (1 hf year_index start_record)
  let ?c = "count_at hf year_index"
  let ?n = "batch_size ?c start_record"
  let ?rq = "HISTORY_DATA (year_at hf year_index) ?n start_record"
  note y = "1.prems"
  have sz: "?n = min 100 (?c - 1 - start_record)"
    by (simp add: batch_size_def)
  show ?case
  proof (cases "?n > 0")
    case False
    then have ge: "start_record \<ge> ?c - 1" by (simp add: batch_size_def split: if_splits)
    have p: "page_requests hf year_index start_record = page_requests hf (year_index - 1) 0"
      using y False ge by (subst page_requests.simps) simp
    show ?thesis unfolding p using year_batches_empty[OF ge] by simp
  next
    case n: True
    then have lt: "start_record < ?c - 1" by (simp add: batch_size_def split: if_splits)
    show ?thesis
    proof (cases "start_record + ?n \<ge> ?c - 1")
      case True
      have p: "page_requests hf year_index start_record = ?rq # page_requests hf (year_index - 1) 0"
        using y n True by (subst page_requests.simps) simp
      have "?c - 1 \<le> start_record + 100" using True sz by simp
      from year_batches_empty[OF this]
      have "year_batches (year_at hf year_index) ?c start_record = [?rq]"
        using year_batches_step[OF lt, of "year_at hf year_index"] sz by simp
      then show ?thesis unfolding p by simp
    next
      case False
      have p: "page_requests hf year_index start_record
                 = ?rq # page_requests hf year_index (start_record + ?n)"
        using y n False by (subst page_requests.simps) simp
      have n100: "?n = 100" using False sz by simp
      from "1.IH"(2)[OF y n False y]
      have "page_requests hf year_index (start_record + 100) =
              year_batches (year_at hf year_index) ?c (start_record + 100)
              @ page_requests hf (year_index - 1) 0"
        using n100 by simp
      then show ?thesis
        unfolding p using year_batches_step[OF lt, of "year_at hf year_index"] sz n100 by simp
    qed
  qed
qed

text \<open>
  C3, as the code has it. From a start index in a year slot, with every request answered,
  the paging loop asks for the records of that year in batches of 100 from the start index
  on, the last batch clipped so that it ends before the index \<open>count - 1\<close>; the last index
  of the year is not requested. It then goes on with the next (more recent) year slot from
  record 0.
\<close>

theorem traverse_pages_in_batches:
  assumes "a_last_rain_value L \<noteq> Unbound"
    and "7 \<le> year_index"
    and "\<forall>rq \<in> set (page_requests hf year_index start_record). answered st rq"
  shows "\<exists>L'. traverse cal st hf year_index start_record L = Inr L' \<and>
     a_requests L' = a_requests L
        @ year_batches (year_at hf year_index) (count_at hf year_index) start_record
        @ page_requests hf (year_index - 1) 0"
  using traverse_requests[OF assms(1,3), of cal] page_requests_year[OF assms(2), of hf start_record]
  by auto

lemma page_requests_done: "page_requests hf 6 start_record = []"
  by (subst page_requests.simps) simp

lemma batches_250_0:
  "year_batches 2017 250 0 =
     [HISTORY_DATA 2017 100 0, HISTORY_DATA 2017 100 100, HISTORY_DATA 2017 49 200]"
  by code_simp

lemma batches_250_180: "year_batches 2017 250 180 = [HISTORY_DATA 2017 69 180]"
  by code_simp

lemma long_plan_0:
  "page_requests long_file 7 0 =
     [HISTORY_DATA 2017 100 0, HISTORY_DATA 2017 100 100, HISTORY_DATA 2017 49 200]"
  by (simp add: page_requests_year page_requests_done batches_250_0 long_file_def
        year_at_def count_at_def)

lemma long_plan_180: "page_requests long_file 7 180 = [HISTORY_DATA 2017 69 180]"
  by (simp add: page_requests_year page_requests_done batches_250_180 long_file_def
        year_at_def count_at_def)

lemma first_pass_bound: "a_last_rain_value first_pass_locals \<noteq> Unbound"
  by (simp add: first_pass_locals_def initial_locals_def)

theorem traverse_pages_in_batches_witness:
  "\<exists>L'. traverse utc_calendar long_station long_file 7 0 first_pass_locals = Inr L' \<and>
     a_requests L' =
       [HISTORY_DATA 2017 100 0, HISTORY_DATA 2017 100 100, HISTORY_DATA 2017 49 200]"
proof -
  have ans: "\<forall>rq \<in> set (page_requests long_file 7 0). answered long_station rq"
    by (simp add: long_plan_0 long_station_def station_of_def long_records_def)
  have seven: "(7::int) \<le> 7" by simp
  from traverse_pages_in_batches[OF first_pass_bound seven ans, of utc_calendar]
  show ?thesis
    by (simp add: page_requests_done batches_250_0 long_file_def year_at_def count_at_def
          first_pass_locals_def initial_locals_def)
qed

text \<open>
  C3 as stated fails on its own example: in a year of 250 records, from the start index
  180 the loop sends one request, for the 69 records 180 to 248. The batches of 100, 100
  and 49 are those of the start index 0.
\<close>

theorem start_180_counterexample:
  "requests (traverse utc_calendar long_station long_file 7 180 first_pass_locals)
     = [HISTORY_DATA 2017 69 180]"
proof -
  have ans: "\<forall>rq \<in> set (page_requests long_file 7 180). answered long_station rq"
    by (simp add: long_plan_180 long_station_def station_of_def long_records_def)
  from traverse_requests[OF first_pass_bound ans, of utc_calendar]
  show ?thesis
    by (auto simp add: long_plan_180 requests_def first_pass_locals_def initial_locals_def)
qed

section \<open>The choice of the year slot\<close>

lemma length_enumerate7: "length (enumerate7 ys) = length ys"
  by (simp add: enumerate7_def)

lemma nth_enumerate7: "k < length ys \<Longrightarrow> enumerate7 ys ! k = (7 + int k, ys ! k)"
  by (simp add: enumerate7_def)

lemma find_rev_None:
  "find (\<lambda>(index, v). Q v) (rev (enumerate7 ys)) = None \<longleftrightarrow> (\<forall>v \<in> set ys. \<not> Q v)"
proof -
  have "map snd (enumerate7 ys) = ys"
    by (simp add: enumerate7_def map_snd_zip)
  then have "set ys = snd ` set (enumerate7 ys)"
    by (metis set_map)
  then show ?thesis
    by (auto simp: find_None_iff)
qed

lemma find_rev_Some:
  assumes "find (\<lambda>(index, v). Q v) (rev (enumerate7 ys)) = Some (i, w)"
  shows "7 \<le> i \<and> i < 7 + int (length ys) \<and> w = ys ! nat (i - 7) \<and> Q w \<and>
         (\<forall>j. i < j \<and> j < 7 + int (length ys) \<longrightarrow> \<not> Q (ys ! nat (j - 7)))"
proof -
  let ?e = "enumerate7 ys" and ?n = "length ys"
  from assms obtain k where k: "k < ?n" and pk: "(case rev ?e ! k of (index, v) \<Rightarrow> Q v)"
    and eq: "(i, w) = rev ?e ! k"
    and first: "\<forall>j<k. \<not> (case rev ?e ! j of (index, v) \<Rightarrow> Q v)"
    by (auto simp: find_Some_iff length_enumerate7)
  have rk: "rev ?e ! k = (7 + int (?n - Suc k), ys ! (?n - Suc k))"
    using k by (simp add: rev_nth length_enumerate7 nth_enumerate7)
  have i: "i = 7 + int (?n - Suc k)" and w: "w = ys ! (?n - Suc k)"
    using eq rk by simp_all
  have later: "\<forall>j. i < j \<and> j < 7 + int ?n \<longrightarrow> \<not> Q (ys ! nat (j - 7))"
  proof (intro allI impI)
    fix j assume j: "i < j \<and> j < 7 + int ?n"
    let ?m = "nat (j - 7)"
    have m: "?m < ?n" "?n - Suc k < ?m" using j i by auto
    let ?j' = "?n - Suc ?m"
    have j'k: "?j' < k" using m k by auto
    have "rev ?e ! ?j' = (7 + int (?n - Suc ?j'), ys ! (?n - Suc ?j'))"
      using m by (simp add: rev_nth length_enumerate7 nth_enumerate7)
    moreover have "?n - Suc ?j' = ?m" using m by auto
    ultimately have "rev ?e ! ?j' = (7 + int ?m, ys ! ?m)" by simp
    with first j'k show "\<not> Q (ys ! nat (j - 7))" by force
  qed
  have ni: "nat (i - 7) = ?n - Suc k" unfolding i by simp
  have "7 \<le> i" "i < 7 + int ?n" using k unfolding i by simp_all
  moreover have "w = ys ! nat (i - 7)" unfolding ni by (rule w)
  moreover have "Q w" using pk rk w by simp
  ultimately show ?thesis using later by blast
qed

lemma find_rev_last_filter:
  "find P (rev xs) = (if filter P xs = [] then None else Some (last (filter P xs)))"
  by (induction xs rule: rev_induct) auto

lemma first_year_index_find:
  "first_year_index years =
     (case find (\<lambda>(x, y). y \<noteq> 0) (rev (enumerate7 years)) of
        None \<Rightarrow> Inl IndexError
      | Some (i, w) \<Rightarrow> Inr i)"
proof (cases "filter (\<lambda>(x, y). y \<noteq> 0) (enumerate7 years) = []")
  case True
  then show ?thesis by (simp add: first_year_index_def find_rev_last_filter)
next
  case False
  then have "map fst (filter (\<lambda>(x, y). y \<noteq> 0) (enumerate7 years)) \<noteq> []" by simp
  then obtain a as where m: "map fst (filter (\<lambda>(x, y). y \<noteq> 0) (enumerate7 years)) = a # as"
    by (cases "map fst (filter (\<lambda>(x, y). y \<noteq> 0) (enumerate7 years))") auto
  have "last (map fst (filter (\<lambda>(x, y). y \<noteq> 0) (enumerate7 years)))
          = fst (last (filter (\<lambda>(x, y). y \<noteq> 0) (enumerate7 years)))"
    using False by (rule last_map)
  then have "last (a # as) = fst (last (filter (\<lambda>(x, y). y \<noteq> 0) (enumerate7 years)))"
    unfolding m .
  then show ?thesis
    using False m by (simp add: first_year_index_def find_rev_last_filter split: prod.splits)
qed

text \<open>
  C6, as the code has it. With no timestamp, and some slot populated, the pass starts at
  record 0 of the populated slot of greatest index (the slots after it are empty; it is the
  oldest year when the slots are ordered newest first). With a timestamp, the slots are
  scanned from the last one (index 14, the oldest) down to the first (index 7, the
  newest), and the binary search runs in the first slot met whose year is not below the
  year of the timestamp: the slot of greatest index with such a year. When every slot's
  year is below the year of the timestamp, the generator returns at once and has yielded
  nothing.
\<close>

theorem year_slot_selection:
  assumes "history_file st = Some hf"
    and "length (hf_years hf) = 8"
    and "length (hf_counts hf) = 8"
  shows
   "((\<exists>w \<in> set (hf_years hf). w \<noteq> 0) \<longrightarrow>
       (\<exists>i. resume_point cal st hf None L =
               Some (Inr (Resume i 0
                 (L\<lparr>a_last_rain_value := Bound (Some 0), a_last_record_date := None\<rparr>))) \<and>
            7 \<le> i \<and> i \<le> 14 \<and> hf_years hf ! nat (i - 7) \<noteq> 0 \<and>
            (\<forall>j. i < j \<and> j \<le> 14 \<longrightarrow> hf_years hf ! nat (j - 7) = 0))) \<and>
    ((\<exists>w \<in> set (hf_years hf). w \<ge> year_of cal (fromtimestamp cal ts)) \<longrightarrow>
       (\<exists>i. 7 \<le> i \<and> i \<le> 14 \<and>
            hf_years hf ! nat (i - 7) \<ge> year_of cal (fromtimestamp cal ts) \<and>
            (\<forall>j. i < j \<and> j \<le> 14 \<longrightarrow>
                 hf_years hf ! nat (j - 7) < year_of cal (fromtimestamp cal ts)) \<and>
            resume_point cal st hf (Some ts) L =
              (case find_start st (year_at hf i) (fromtimestamp cal ts) 0 (count_at hf i - 1)
                      (L\<lparr>a_last_record_date := Some (fromtimestamp cal ts)\<rparr>) of
                 None \<Rightarrow> None
               | Some (Inl err) \<Rightarrow> Some (Inl err)
               | Some (Inr (sample, L2)) \<Rightarrow> Some (Inr (Resume i sample L2))))) \<and>
    ((\<forall>w \<in> set (hf_years hf). w < year_of cal (fromtimestamp cal ts)) \<longrightarrow>
       genStartupRecords cal st (Some ts) L =
         Some (Inr (L\<lparr>a_requests := a_requests L @ [HISTORY_FILE],
                       a_last_record_date := Some (fromtimestamp cal ts)\<rparr>)))"
proof (intro conjI impI)
  assume pop: "\<exists>w \<in> set (hf_years hf). w \<noteq> 0"
  let ?f = "find (\<lambda>(x, y). y \<noteq> 0) (rev (enumerate7 (hf_years hf)))"
  have "?f \<noteq> None"
    using pop find_rev_None[of "\<lambda>y. y \<noteq> 0" "hf_years hf"] by blast
  then obtain i w where f: "?f = Some (i, w)" by (cases ?f) auto
  from find_rev_Some[OF f] assms(2)
  have p: "7 \<le> i" "i \<le> 14" "hf_years hf ! nat (i - 7) \<noteq> 0"
    "\<forall>j. i < j \<and> j \<le> 14 \<longrightarrow> hf_years hf ! nat (j - 7) = 0"
    by auto
  have "first_year_index (hf_years hf) = Inr i"
    using f by (simp add: first_year_index_find)
  then have "resume_point cal st hf None L =
               Some (Inr (Resume i 0
                 (L\<lparr>a_last_rain_value := Bound (Some 0), a_last_record_date := None\<rparr>)))"
    by (simp add: resume_point_def)
  with p show "\<exists>i. resume_point cal st hf None L =
               Some (Inr (Resume i 0
                 (L\<lparr>a_last_rain_value := Bound (Some 0), a_last_record_date := None\<rparr>))) \<and>
            7 \<le> i \<and> i \<le> 14 \<and> hf_years hf ! nat (i - 7) \<noteq> 0 \<and>
            (\<forall>j. i < j \<and> j \<le> 14 \<longrightarrow> hf_years hf ! nat (j - 7) = 0)"
    by blast
next
  let ?y = "year_of cal (fromtimestamp cal ts)"
  assume some: "\<exists>w \<in> set (hf_years hf). w \<ge> ?y"
  let ?f = "find (\<lambda>(index, ws_year). ws_year \<ge> ?y) (rev (enumerate7 (hf_years hf)))"
  have "?f \<noteq> None"
    using some find_rev_None[of "\<lambda>v. v \<ge> ?y" "hf_years hf"] by blast
  then obtain i w where f: "?f = Some (i, w)" by (cases ?f) auto
  from find_rev_Some[OF f] assms(2)
  have p: "7 \<le> i" "i \<le> 14" "hf_years hf ! nat (i - 7) \<ge> ?y"
    "\<forall>j. i < j \<and> j \<le> 14 \<longrightarrow> hf_years hf ! nat (j - 7) < ?y"
    by auto
  have ry: "resume_year_index (hf_years hf) ?y = Some i"
    using f by (simp add: resume_year_index_def)
  have "resume_point cal st hf (Some ts) L =
              (case find_start st (year_at hf i) (fromtimestamp cal ts) 0 (count_at hf i - 1)
                      (L\<lparr>a_last_record_date := Some (fromtimestamp cal ts)\<rparr>) of
                 None \<Rightarrow> None
               | Some (Inl err) \<Rightarrow> Some (Inl err)
               | Some (Inr (sample, L2)) \<Rightarrow> Some (Inr (Resume i sample L2)))"
    using ry by (simp add: resume_point_def Let_def)
  with p show "\<exists>i. 7 \<le> i \<and> i \<le> 14 \<and>
            hf_years hf ! nat (i - 7) \<ge> ?y \<and>
            (\<forall>j. i < j \<and> j \<le> 14 \<longrightarrow> hf_years hf ! nat (j - 7) < ?y) \<and>
            resume_point cal st hf (Some ts) L =
              (case find_start st (year_at hf i) (fromtimestamp cal ts) 0 (count_at hf i - 1)
                      (L\<lparr>a_last_record_date := Some (fromtimestamp cal ts)\<rparr>) of
                 None \<Rightarrow> None
               | Some (Inl err) \<Rightarrow> Some (Inl err)
               | Some (Inr (sample, L2)) \<Rightarrow> Some (Inr (Resume i sample L2)))"
    by blast
next
  let ?y = "year_of cal (fromtimestamp cal ts)"
  assume none: "\<forall>w \<in> set (hf_years hf). w < ?y"
  have "find (\<lambda>(index, ws_year). ws_year \<ge> ?y) (rev (enumerate7 (hf_years hf))) = None"
    using none find_rev_None[of "\<lambda>v. v \<ge> ?y" "hf_years hf"] by auto
  then have ry: "resume_year_index (hf_years hf) ?y = None"
    by (simp add: resume_year_index_def)
  show "genStartupRecords cal st (Some ts) L =
         Some (Inr (L\<lparr>a_requests := a_requests L @ [HISTORY_FILE],
                       a_last_record_date := Some (fromtimestamp cal ts)\<rparr>))"
    using assms ry by (subst genStartupRecords.simps) (simp add: resume_point_def Let_def)
qed

text \<open>The definitions of the station with two years.\<close>

lemmas two_year_eval = two_year_station_def two_year_file_def december_records_def

lemma two_year_reply: "history_file two_year_station = Some two_year_file"
  by (simp add: two_year_eval station_of_def june_records_def)

theorem year_slot_selection_witness:
  "(\<exists>i. resume_point utc_calendar two_year_station two_year_file None initial_locals =
           Some (Inr (Resume i 0
             (initial_locals\<lparr>a_last_rain_value := Bound (Some 0), a_last_record_date := None\<rparr>))) \<and>
        7 \<le> i \<and> i \<le> 14 \<and> hf_years two_year_file ! nat (i - 7) \<noteq> 0 \<and>
        (\<forall>j. i < j \<and> j \<le> 14 \<longrightarrow> hf_years two_year_file ! nat (j - 7) = 0)) \<and>
   genStartupRecords utc_calendar two_year_station (Some 1514764800) initial_locals =
     Some (Inr (initial_locals\<lparr>a_requests := a_requests initial_locals @ [HISTORY_FILE],
                   a_last_record_date := Some (fromtimestamp utc_calendar 1514764800)\<rparr>))"
proof -
  have l1: "length (hf_years two_year_file) = 8" and l2: "length (hf_counts two_year_file) = 8"
    by (simp_all add: two_year_file_def)
  have pop: "\<exists>w \<in> set (hf_years two_year_file). w \<noteq> 0"
    by (simp add: two_year_file_def)
  have old: "\<forall>w \<in> set (hf_years two_year_file).
               w < year_of utc_calendar (fromtimestamp utc_calendar 1514764800)"
    by (simp add: two_year_file_def utc_calendar_def utc_year_def)
  from year_slot_selection[OF two_year_reply l1 l2, of utc_calendar initial_locals 1514764800]
    pop old
  show ?thesis by blast
qed

text \<open>
  C6 as stated fails on the direction of the scan. With the years 2017 and 2016 held and a
  timestamp in 2016 (23:50 on 2016-12-31), a scan from the newest slot would stop at slot
  7 (2017); the driver scans from the oldest slot and resumes in slot 8 (2016): its first
  probe is for a record of 2016.
\<close>

theorem year_scan_counterexample:
  "resume_year_index (hf_years two_year_file) 2016 = Some 8 \<and>
   claimed_resume_year_index (hf_years two_year_file) 2016 = Some 7 \<and>
   map_option requests
     (genStartupRecords utc_calendar two_year_station (Some 1483228200) initial_locals)
     = Some [HISTORY_FILE, HISTORY_DATA 2016 1 0, HISTORY_DATA 2017 2 0,
             HISTORY_FILE, HISTORY_DATA 2017 1 1]"
  by (simp add: gen_eval june_eval two_year_eval claimed_resume_year_index_def)


end
